theory Spec2Isabelle
  imports Complex_Main "HOL-Library.Char_ord" "HOL-Library.List_Lexorder" "HOL-Library.Sublist"
begin

section \<open>Python values used by \<open>scripts/update_dashboard.py\<close>\<close>

text \<open>
  A Python \<open>str\<close> is a sequence of code points. A \<^typ>\<open>char\<close> of this development
  stands for a code point below 256 (the Latin-1 block of Unicode), and the character
  tables below (\<open>isspace\<close>, \<open>isdigit\<close>) are Python's, restricted to that block.
  Strings are compared as Python compares them: lexicographically by code point.
\<close>

definition TAB :: char where
  "TAB = CHR 0x09"

definition isspace :: "char \<Rightarrow> bool" where
  \<comment> \<open>the characters \<open>str.strip()\<close> removes\<close>
  "isspace c = (let n = (of_char c :: nat)
     in (9 \<le> n \<and> n \<le> 13) \<or> (28 \<le> n \<and> n \<le> 32) \<or> n = 133 \<or> n = 160)"

definition strip :: "string \<Rightarrow> string" where
  "strip s = rev (dropWhile isspace (rev (dropWhile isspace s)))"

fun str_split :: "char \<Rightarrow> string \<Rightarrow> string list" where
  \<comment> \<open>\<open>s.split(sep)\<close> for a one-character separator\<close>
  "str_split sep [] = [[]]"
| "str_split sep (c # cs) =
     (if c = sep then [] # str_split sep cs
      else (case str_split sep cs of p # ps \<Rightarrow> (c # p) # ps | [] \<Rightarrow> [[c]]))"

definition isdigit_char :: "char \<Rightarrow> bool" where
  \<comment> \<open>code points below 256 for which \<open>str.isdigit\<close> holds: 0-9 and the superscripts
      two, three and one (U+00B2, U+00B3, U+00B9)\<close>
  "isdigit_char c = (let n = (of_char c :: nat)
     in (48 \<le> n \<and> n \<le> 57) \<or> n = 178 \<or> n = 179 \<or> n = 185)"

definition isdigit :: "string \<Rightarrow> bool" where
  \<comment> \<open>\<open>t.isdigit()\<close>: false on the empty string\<close>
  "isdigit t = (t \<noteq> [] \<and> list_all isdigit_char t)"

fun str_in :: "string \<Rightarrow> string \<Rightarrow> bool" where
  \<comment> \<open>\<open>p in s\<close> on strings\<close>
  "str_in p [] = (p = [])"
| "str_in p (c # cs) = (prefix p (c # cs) \<or> str_in p cs)"

function str_replace :: "string \<Rightarrow> string \<Rightarrow> string \<Rightarrow> string" where
  \<comment> \<open>\<open>s.replace(old, new)\<close>: every non-overlapping occurrence, left to right\<close>
  "str_replace old new s =
     (if old = [] then new @ concat (map (\<lambda>c. c # new) s)
      else if s = [] then []
      else if prefix old s then new @ str_replace old new (drop (length old) s)
      else hd s # str_replace old new (tl s))"
  by pat_completeness auto
termination
  by (relation "measure (\<lambda>(old, new, s). length s)") auto

declare str_replace.simps [simp del]

definition key :: "string \<Rightarrow> string \<Rightarrow> string \<Rightarrow> string" where
  \<comment> \<open>the f-string \<open>f"{h}\t{r}\t{t}"\<close>\<close>
  "key h r t = h @ [TAB] @ r @ [TAB] @ t"

subsection \<open>Floats\<close>

text \<open>
  A finite float is modelled by the rational it denotes, and float arithmetic by exact
  rational arithmetic; the three special values are kept, since \<open>float()\<close> accepts the
  texts \<open>nan\<close> and \<open>inf\<close>.
\<close>

datatype pyfloat = Fin rat | PInf | NInf | NaN

fun fadd :: "pyfloat \<Rightarrow> pyfloat \<Rightarrow> pyfloat" where
  "fadd (Fin a) (Fin b) = Fin (a + b)"
| "fadd NaN _ = NaN"
| "fadd _ NaN = NaN"
| "fadd PInf NInf = NaN"
| "fadd NInf PInf = NaN"
| "fadd PInf _ = PInf"
| "fadd _ PInf = PInf"
| "fadd NInf _ = NInf"
| "fadd _ NInf = NInf"

definition round_half_even :: "rat \<Rightarrow> int" where
  "round_half_even x =
     (let f = \<lfloor>x\<rfloor>; d = x - of_int f
      in if d < 1 / 2 then f else if 1 / 2 < d then f + 1
         else if even f then f else f + 1)"

definition py_round :: "rat \<Rightarrow> nat \<Rightarrow> rat" where
  \<comment> \<open>\<open>round(x, nd)\<close>\<close>
  "py_round x nd = of_int (round_half_even (x * 10 ^ nd)) / 10 ^ nd"

definition fround :: "pyfloat \<Rightarrow> nat \<Rightarrow> pyfloat" where
  "fround x nd = (case x of Fin q \<Rightarrow> Fin (py_round q nd) | _ \<Rightarrow> x)"

definition digit_char :: "nat \<Rightarrow> char" where
  \<comment> \<open>the character of a digit \<open>d < 10\<close>\<close>
  "digit_char d = ''0123456789'' ! d"

fun digits_of :: "nat \<Rightarrow> string" where
  "digits_of n = (if n < 10 then [digit_char n] else digits_of (n div 10) @ [digit_char (n mod 10)])"

declare digits_of.simps [simp del]

definition fmt4f :: "pyfloat \<Rightarrow> string" where
  \<comment> \<open>the format \<open>f"{score:.4f}"\<close>\<close>
  "fmt4f x = (case x of
       NaN \<Rightarrow> ''nan'' | PInf \<Rightarrow> ''inf'' | NInf \<Rightarrow> ''-inf''
     | Fin q \<Rightarrow>
         (let n = nat (round_half_even (\<bar>q\<bar> * 10000))
          in (if q < 0 then ''-'' else []) @ digits_of (n div 10000) @ ''.'' @
             [digit_char (n div 1000 mod 10), digit_char (n div 100 mod 10),
              digit_char (n div 10 mod 10), digit_char (n mod 10)]))"

subsection \<open>Exceptions and checked division\<close>

datatype pyerror = ZeroDivisionError | AttributeError | TypeError

definition and_then :: "pyerror + 'a \<Rightarrow> ('a \<Rightarrow> pyerror + 'b) \<Rightarrow> pyerror + 'b" where
  "and_then m f = (case m of Inl e \<Rightarrow> Inl e | Inr v \<Rightarrow> f v)"

definition true_div :: "rat \<Rightarrow> rat \<Rightarrow> pyerror + rat" where
  \<comment> \<open>Python's \<open>a / b\<close>\<close>
  "true_div a b = (if b = 0 then Inl ZeroDivisionError else Inr (a / b))"

definition percent_of :: "nat \<Rightarrow> nat \<Rightarrow> pyerror + rat" where
  \<comment> \<open>the recurring expression \<open>(x / total) * 100 if total > 0 else 0\<close>\<close>
  "percent_of x n =
     (if n > 0 then and_then (true_div (of_nat x) (of_nat n)) (\<lambda>q. Inr (q * 100))
      else Inr 0)"

subsection \<open>JSON values\<close>

text \<open>
  What \<open>json.load\<close> returns. \<open>JObject kvs\<close> is the dict whose value at a key is the
  first binding of that key in \<open>kvs\<close>.
\<close>

datatype json =
    JObject "(string \<times> json) list"
  | JArray "json list"
  | JString string
  | JNumber rat
  | JBool bool
  | JNull

definition dict_get :: "json \<Rightarrow> string \<Rightarrow> json \<Rightarrow> pyerror + json" where
  \<comment> \<open>\<open>d.get(k, default)\<close>; only a dict has the method\<close>
  "dict_get d k dflt = (case d of
       JObject kvs \<Rightarrow> Inr (case map_of kvs k of None \<Rightarrow> dflt | Some v \<Rightarrow> v)
     | _ \<Rightarrow> Inl AttributeError)"

definition py_len :: "json \<Rightarrow> pyerror + nat" where
  \<comment> \<open>\<open>len(x)\<close>\<close>
  "py_len x = (case x of
       JObject kvs \<Rightarrow> Inr (length (remdups (map fst kvs)))
     | JArray xs \<Rightarrow> Inr (length xs)
     | JString s \<Rightarrow> Inr (length s)
     | _ \<Rightarrow> Inl TypeError)"

section \<open>The inputs of a run\<close>

text \<open>
  The two builtins whose results the script depends on and whose definitions are not part of
  it: \<open>float()\<close> (\<open>None\<close> stands for \<open>ValueError\<close>) and \<open>hash()\<close> on strings.
\<close>

record runtime =
  py_float :: "string \<Rightarrow> pyfloat option"
  py_hash :: "string \<Rightarrow> int"

datatype mappings_file =
    MappingsMissing  \<comment> \<open>\<open>MAPPINGS_PATH.exists()\<close> is false\<close>
  | MappingsUnparsable  \<comment> \<open>\<open>open\<close> or \<open>json.load\<close> raises\<close>
  | MappingsJson json

datatype real_triples_file =
    RealMissing  \<comment> \<open>\<open>REAL_TRIPLES_PATH.exists()\<close> is false\<close>
  | RealLines "string list"  \<comment> \<open>the lines of the file, all read\<close>
  | RealMemoryError "string list"  \<comment> \<open>the lines read before \<open>MemoryError\<close> was raised\<close>

datatype 'a column = Absent | Unconvertible | Cell 'a

datatype log_file =
    LogMissing
  | LogUnreadable  \<comment> \<open>\<open>pd.read_csv\<close> raises\<close>
  | LogEmpty
  | LogLastRow "int column" "rat column" "rat column"

record inputs =
  mappings :: mappings_file
  synthetic_files :: "(string \<times> string list) list"
    \<comment> \<open>name and lines of every file matching \<open>generated*.txt\<close>\<close>
  real_triples :: real_triples_file
  training_log :: log_file
  now :: string

type_synonym scored_triple = "string \<times> string \<times> string \<times> pyfloat"

section \<open>The report\<close>

record training_status =
  epoch :: int
  d_loss :: rat
  g_loss :: rat

record stats =
  novelty :: rat
  train_overlap :: rat
  uniqueness :: rat
  relation_diversity :: rat
  avg_distance :: pyfloat
  schema_validity :: rat
  total_generated :: nat
  total_knowledge_base :: nat

record relation_freq_entry =
  rf_relation :: string
  rf_count :: nat
  rf_percent :: rat

record hypothesis =
  hyp_head :: json
  hyp_relation :: string
  hyp_tail :: json
  hyp_score :: string
  hyp_is_novel :: bool

record dashboard_data =
  last_updated :: string
  status :: training_status
  stats :: stats
  relation_freq :: "relation_freq_entry list"
  hypotheses :: "hypothesis list"

datatype exit_status =
    MappingsNotFound  \<comment> \<open>return at line 26\<close>
  | MappingsLoadFailed  \<comment> \<open>return at line 35\<close>
  | NoGeneratedData  \<comment> \<open>return at line 40\<close>
  | Uncaught pyerror  \<comment> \<open>an exception leaves \<open>main\<close>\<close>
  | Success

record run_result =
  exit :: exit_status
  written :: "dashboard_data list"  \<comment> \<open>what was written to \<open>OUTPUT_JSON\<close>, in order\<close>

section \<open>Loading the inputs\<close>

definition load_mappings :: "mappings_file \<Rightarrow> exit_status + json" where
  \<comment> \<open>lines 24 to 35; \<open>except Exception\<close> also catches the \<open>AttributeError\<close> of
      \<open>data.get\<close> on a JSON value that is not an object\<close>
  "load_mappings m = (case m of
       MappingsMissing \<Rightarrow> Inl MappingsNotFound
     | MappingsUnparsable \<Rightarrow> Inl MappingsLoadFailed
     | MappingsJson data \<Rightarrow>
         (case dict_get data ''id2ent'' (JObject []) of
            Inl e \<Rightarrow> Inl MappingsLoadFailed
          | Inr id_to_name \<Rightarrow> Inr id_to_name))"

definition latest_file :: "(string \<times> string list) list \<Rightarrow> string \<times> string list" where
  \<comment> \<open>\<open>sorted(...)[-1]\<close>, called on a non-empty list only\<close>
  "latest_file files = last (sort_key fst files)"

definition parse_line :: "runtime \<Rightarrow> string \<Rightarrow> scored_triple option" where
  \<comment> \<open>lines 49 to 54: \<open>None\<close> when the line is dropped\<close>
  "parse_line rt line =
     (let parts = str_split TAB (strip line)
      in if length parts \<ge> 4
         then (case py_float rt (parts ! 3) of
                 None \<Rightarrow> None
               | Some score \<Rightarrow> Some (parts ! 0, parts ! 1, parts ! 2, score))
         else None)"

definition read_generated :: "runtime \<Rightarrow> string list \<Rightarrow> scored_triple list" where
  \<comment> \<open>lines 46 to 54: the first line is the header\<close>
  "read_generated rt lines = List.map_filter (parse_line rt) (tl lines)"

definition real_parts :: "string list \<Rightarrow> string list list" where
  \<comment> \<open>the lines of the reference file that have exactly three fields\<close>
  "real_parts lines = filter (\<lambda>p. length p = 3) (map (\<lambda>line. str_split TAB (strip line)) lines)"

definition load_real :: "runtime \<Rightarrow> real_triples_file \<Rightarrow> int set \<times> string set \<times> bool" where
  \<comment> \<open>lines 57 to 77: \<open>(real_triples_set, all_relations, novelty_check_active)\<close>; on
      \<open>MemoryError\<close> the set of hashes is reset, the relations seen so far are kept\<close>
  "load_real rt f = (case f of
       RealMissing \<Rightarrow> ({}, {}, False)
     | RealLines lines \<Rightarrow>
         (set (map (\<lambda>p. py_hash rt (key (p ! 0) (p ! 1) (p ! 2))) (real_parts lines)),
          set (map (\<lambda>p. p ! 1) (real_parts lines)), True)
     | RealMemoryError lines \<Rightarrow>
         ({}, set (map (\<lambda>p. p ! 1) (real_parts lines)), False))"

definition read_training_status :: "log_file \<Rightarrow> training_status" where
  \<comment> \<open>lines 150 to 159 and the rounding of lines 165, 166: a conversion that raises leaves
      the values assigned before it\<close>
  "read_training_status f = (case f of
       LogLastRow e d g \<Rightarrow>
         (case e of
            Unconvertible \<Rightarrow> \<lparr>epoch = 0, d_loss = 0, g_loss = 0\<rparr>
          | _ \<Rightarrow>
           (let current_epoch = (case e of Cell v \<Rightarrow> v | _ \<Rightarrow> 0)
            in case d of
                 Unconvertible \<Rightarrow> \<lparr>epoch = current_epoch, d_loss = 0, g_loss = 0\<rparr>
               | _ \<Rightarrow>
                (let current_d_loss = (case d of Cell v \<Rightarrow> v | _ \<Rightarrow> 0)
                 in case g of
                      Unconvertible \<Rightarrow>
                        \<lparr>epoch = current_epoch, d_loss = py_round current_d_loss 4, g_loss = 0\<rparr>
                    | _ \<Rightarrow>
                        \<lparr>epoch = current_epoch, d_loss = py_round current_d_loss 4,
                         g_loss = py_round (case g of Cell v \<Rightarrow> v | _ \<Rightarrow> 0) 4\<rparr>)))
     | _ \<Rightarrow> \<lparr>epoch = 0, d_loss = 0, g_loss = 0\<rparr>)"

section \<open>The metrics\<close>

definition is_novel :: "runtime \<Rightarrow> int set \<Rightarrow> scored_triple \<Rightarrow> bool" where
  \<comment> \<open>\<open>hash(f"{h}\t{r}\t{t}") not in real_triples_set\<close>\<close>
  "is_novel rt real_triples_set x =
     (case x of (h, r, t, score) \<Rightarrow> py_hash rt (key h r t) \<notin> real_triples_set)"

definition novel_count :: "runtime \<Rightarrow> bool \<Rightarrow> int set \<Rightarrow> scored_triple list \<Rightarrow> nat" where
  \<comment> \<open>lines 82 to 88\<close>
  "novel_count rt novelty_check_active real_triples_set synthetic_triples =
     (if novelty_check_active
      then length (filter (is_novel rt real_triples_set) synthetic_triples)
      else length synthetic_triples)"

definition novelty_score :: "runtime \<Rightarrow> bool \<Rightarrow> int set \<Rightarrow> scored_triple list \<Rightarrow> pyerror + rat" where
  \<comment> \<open>line 91\<close>
  "novelty_score rt novelty_check_active real_triples_set synthetic_triples =
     percent_of (novel_count rt novelty_check_active real_triples_set synthetic_triples)
       (length synthetic_triples)"

definition overlap_score :: "runtime \<Rightarrow> bool \<Rightarrow> int set \<Rightarrow> scored_triple list \<Rightarrow> pyerror + rat" where
  \<comment> \<open>lines 90 and 92\<close>
  "overlap_score rt novelty_check_active real_triples_set synthetic_triples =
     percent_of
       (length synthetic_triples
          - novel_count rt novelty_check_active real_triples_set synthetic_triples)
       (length synthetic_triples)"

definition unique_triples :: "scored_triple list \<Rightarrow> nat" where
  \<comment> \<open>line 94\<close>
  "unique_triples synthetic_triples =
     card (set (map (\<lambda>(h, r, t, score). key h r t) synthetic_triples))"

definition uniqueness_score :: "scored_triple list \<Rightarrow> pyerror + rat" where
  \<comment> \<open>line 95\<close>
  "uniqueness_score synthetic_triples =
     percent_of (unique_triples synthetic_triples) (length synthetic_triples)"

fun counter_add :: "'a \<Rightarrow> ('a \<times> nat) list \<Rightarrow> ('a \<times> nat) list" where
  "counter_add x [] = [(x, 1)]"
| "counter_add x ((y, n) # kvs) =
     (if x = y then (y, Suc n) # kvs else (y, n) # counter_add x kvs)"

definition Counter :: "'a list \<Rightarrow> ('a \<times> nat) list" where
  \<comment> \<open>\<open>collections.Counter\<close>: the keys in the order of their first occurrence\<close>
  "Counter xs = foldl (\<lambda>c x. counter_add x c) [] xs"

definition rel_counts :: "scored_triple list \<Rightarrow> (string \<times> nat) list" where
  \<comment> \<open>line 97\<close>
  "rel_counts synthetic_triples = Counter (map (\<lambda>(h, r, t, score). r) synthetic_triples)"

definition total_relations :: "string set \<Rightarrow> nat" where
  \<comment> \<open>line 99\<close>
  "total_relations all_relations = (if all_relations \<noteq> {} then card all_relations else 15)"

definition relation_diversity_of :: "scored_triple list \<Rightarrow> string set \<Rightarrow> pyerror + rat" where
  \<comment> \<open>lines 98 to 100\<close>
  "relation_diversity_of synthetic_triples all_relations =
     percent_of (length (rel_counts synthetic_triples)) (total_relations all_relations)"

fun freq_entries :: "nat \<Rightarrow> (string \<times> nat) list \<Rightarrow> pyerror + relation_freq_entry list" where
  \<comment> \<open>the loop of lines 103 to 105\<close>
  "freq_entries n [] = Inr []"
| "freq_entries n ((rel, cnt) # rest) =
     and_then (percent_of cnt n) (\<lambda>pct.
     and_then (freq_entries n rest) (\<lambda>es.
     Inr (\<lparr>rf_relation = rel, rf_count = cnt, rf_percent = py_round pct 2\<rparr> # es)))"

definition relation_freq_of :: "scored_triple list \<Rightarrow> pyerror + relation_freq_entry list" where
  \<comment> \<open>lines 102 to 106\<close>
  "relation_freq_of synthetic_triples =
     and_then (freq_entries (length synthetic_triples) (rel_counts synthetic_triples))
       (\<lambda>es. Inr (sort_key rf_relation es))"

definition fdiv_nat :: "pyfloat \<Rightarrow> nat \<Rightarrow> pyerror + pyfloat" where
  \<comment> \<open>a float divided by an \<open>int\<close> that is not negative\<close>
  "fdiv_nat x n =
     (if n = 0 then Inl ZeroDivisionError
      else Inr (case x of Fin q \<Rightarrow> Fin (q / of_nat n) | _ \<Rightarrow> x))"

definition avg_distance_of :: "scored_triple list \<Rightarrow> pyerror + pyfloat" where
  \<comment> \<open>line 108\<close>
  "avg_distance_of synthetic_triples =
     (if length synthetic_triples > 0
      then fdiv_nat (foldl fadd (Fin 0) (map (\<lambda>(h, r, t, score). score) synthetic_triples))
             (length synthetic_triples)
      else Inr (Fin 0))"

definition relation_tail_rules :: "(string \<times> string) list" where
  "relation_tail_rules =
    [(''dblp:hasAuthor'', ''author''), (''dblp:hasEditor'', ''author''),
     (''dblp:conferenceSeries'', ''venue/conf''), (''dblp:journalID'', ''venue/journal''),
     (''dblp:listedIn'', ''venue''), (''dblp:presentedAt'', ''venue''),
     (''dblp:publishedInJournal'', ''venue''), (''dblp:publishedInYear'', ''year''),
     (''dblp:conferenceYear'', ''year''), (''dblp:cites'', ''pub''),
     (''dblp:coauthorWith'', ''author''), (''dblp:affiliation'', ''org''),
     (''rdf:type'', ''dblp'')]"

definition is_valid :: "scored_triple \<Rightarrow> bool" where
  \<comment> \<open>lines 119 to 124\<close>
  "is_valid x = (case x of (h, r, t, score) \<Rightarrow>
     (case map_of relation_tail_rules r of
        None \<Rightarrow> True
      | Some rule_tail \<Rightarrow>
          if rule_tail \<noteq> [] then
            (if rule_tail = ''year'' \<and> \<not> isdigit t then False
             else if rule_tail = ''author'' \<and> \<not> str_in ''author'' t then False
             else True)
          else True))"

definition valid_count :: "scored_triple list \<Rightarrow> nat" where
  \<comment> \<open>lines 117 to 126\<close>
  "valid_count synthetic_triples = length (filter is_valid synthetic_triples)"

definition schema_validity_of :: "scored_triple list \<Rightarrow> pyerror + rat" where
  \<comment> \<open>line 128\<close>
  "schema_validity_of synthetic_triples =
     percent_of (valid_count synthetic_triples) (length synthetic_triples)"

section \<open>The hypothesis sample\<close>

definition decode :: "runtime \<Rightarrow> json \<Rightarrow> bool \<Rightarrow> int set \<Rightarrow> scored_triple \<Rightarrow> pyerror + hypothesis" where
  \<comment> \<open>lines 134 to 148, one iteration\<close>
  "decode rt id_to_name novelty_check_active real_triples_set x =
     (case x of (h, r, t, score) \<Rightarrow>
        and_then (dict_get id_to_name h (JString h)) (\<lambda>head_name.
        and_then (dict_get id_to_name t (JString t)) (\<lambda>tail_name.
        Inr \<lparr>hyp_head = head_name,
             hyp_relation = str_replace ''dblp:'' [] r,
             hyp_tail = tail_name,
             hyp_score = fmt4f score,
             hyp_is_novel =
               (if novelty_check_active then is_novel rt real_triples_set x else True)\<rparr>)))"

fun decode_all :: "runtime \<Rightarrow> json \<Rightarrow> bool \<Rightarrow> int set \<Rightarrow> scored_triple list \<Rightarrow> pyerror + hypothesis list" where
  "decode_all rt id_to_name a rs [] = Inr []"
| "decode_all rt id_to_name a rs (x # xs) =
     and_then (decode rt id_to_name a rs x) (\<lambda>d.
     and_then (decode_all rt id_to_name a rs xs) (\<lambda>ds. Inr (d # ds)))"

definition decoded_hypotheses :: "runtime \<Rightarrow> json \<Rightarrow> bool \<Rightarrow> int set \<Rightarrow> scored_triple list \<Rightarrow> pyerror + hypothesis list" where
  \<comment> \<open>lines 130 to 148: the loop leaves at index 200\<close>
  "decoded_hypotheses rt id_to_name a rs synthetic_triples =
     decode_all rt id_to_name a rs (take 200 synthetic_triples)"

section \<open>The run\<close>

definition build_report ::
  "runtime \<Rightarrow> json \<Rightarrow> scored_triple list \<Rightarrow> int set \<times> string set \<times> bool \<Rightarrow> log_file \<Rightarrow> string
     \<Rightarrow> pyerror + dashboard_data" where
  \<comment> \<open>lines 80 to 180\<close>
  "build_report rt id_to_name synthetic_triples loaded log_f ts =
     (case loaded of (real_triples_set, all_relations, novelty_check_active) \<Rightarrow>
      (let tot = length synthetic_triples
       in and_then (novelty_score rt novelty_check_active real_triples_set synthetic_triples)
            (\<lambda>novelty_sc.
          and_then (overlap_score rt novelty_check_active real_triples_set synthetic_triples)
            (\<lambda>overlap_sc.
          and_then (uniqueness_score synthetic_triples) (\<lambda>uniqueness_sc.
          and_then (relation_diversity_of synthetic_triples all_relations) (\<lambda>rel_diversity.
          and_then (relation_freq_of synthetic_triples) (\<lambda>rel_freq.
          and_then (avg_distance_of synthetic_triples) (\<lambda>avg_dist.
          and_then (schema_validity_of synthetic_triples) (\<lambda>validity.
          and_then (decoded_hypotheses rt id_to_name novelty_check_active real_triples_set
                      synthetic_triples) (\<lambda>hyps.
          and_then (py_len id_to_name) (\<lambda>kb.
          Inr \<lparr>last_updated = ts,
               status = read_training_status log_f,
               stats = \<lparr>novelty = py_round novelty_sc 2,
                        train_overlap = py_round overlap_sc 2,
                        uniqueness = py_round uniqueness_sc 2,
                        relation_diversity = py_round rel_diversity 2,
                        avg_distance = fround avg_dist 4,
                        schema_validity = py_round validity 2,
                        total_generated = tot,
                        total_knowledge_base = kb\<rparr>,
               relation_freq = rel_freq,
               hypotheses = hyps\<rparr>)))))))))))"

definition novelty_check_active :: "runtime \<Rightarrow> real_triples_file \<Rightarrow> bool" where
  "novelty_check_active rt f = snd (snd (load_real rt f))"

definition main :: "runtime \<Rightarrow> inputs \<Rightarrow> run_result" where
  "main rt inp =
     (case load_mappings (mappings inp) of
        Inl st \<Rightarrow> \<lparr>exit = st, written = []\<rparr>
      | Inr id_to_name \<Rightarrow>
          if synthetic_files inp = [] then \<lparr>exit = NoGeneratedData, written = []\<rparr>
          else
            (let synthetic_triples = read_generated rt (snd (latest_file (synthetic_files inp)))
             in case build_report rt id_to_name synthetic_triples
                       (load_real rt (real_triples inp)) (training_log inp) (now inp) of
                  Inl e \<Rightarrow> \<lparr>exit = Uncaught e, written = []\<rparr>
                | Inr d \<Rightarrow> \<lparr>exit = Success, written = [d]\<rparr>))"

section \<open>Values of the checked computations\<close>

definition percentage :: "nat \<Rightarrow> nat \<Rightarrow> rat" where
  \<comment> \<open>the value of \<open>percent_of\<close>\<close>
  "percentage x n = (if n > 0 then of_nat x / of_nat n * 100 else 0)"

definition freq_entry :: "nat \<Rightarrow> string \<times> nat \<Rightarrow> relation_freq_entry" where
  \<comment> \<open>the entry line 105 appends\<close>
  "freq_entry n kv =
     \<lparr>rf_relation = fst kv, rf_count = snd kv, rf_percent = py_round (percentage (snd kv) n) 2\<rparr>"

definition decoded :: "(string \<times> json) list \<Rightarrow> runtime \<Rightarrow> bool \<Rightarrow> int set \<Rightarrow> scored_triple \<Rightarrow> hypothesis" where
  \<comment> \<open>the entry lines 142 to 148 append when \<open>id_to_name\<close> is the dict \<open>m\<close>\<close>
  "decoded m rt a rs x = (case x of (h, r, t, score) \<Rightarrow>
     \<lparr>hyp_head = (case map_of m h of None \<Rightarrow> JString h | Some v \<Rightarrow> v),
      hyp_relation = str_replace ''dblp:'' [] r,
      hyp_tail = (case map_of m t of None \<Rightarrow> JString t | Some v \<Rightarrow> v),
      hyp_score = fmt4f score,
      hyp_is_novel = (if a then is_novel rt rs x else True)\<rparr>)"

definition lines_read :: "real_triples_file \<Rightarrow> string list" where
  \<comment> \<open>the lines of the reference file that the loop of lines 65 to 69 has processed\<close>
  "lines_read f = (case f of RealMissing \<Rightarrow> [] | RealLines ls \<Rightarrow> ls | RealMemoryError ls \<Rightarrow> ls)"

section \<open>The specification's wording\<close>

definition decimal_digits_only :: "string \<Rightarrow> bool" where
  \<comment> \<open>"composed entirely of decimal digits"\<close>
  "decimal_digits_only t = list_all (\<lambda>c. c \<in> set ''0123456789'') t"

definition strip_known_prefix :: "string \<Rightarrow> string" where
  \<comment> \<open>"the known namespace prefix stripped from its relation label"\<close>
  "strip_known_prefix r = (if prefix ''dblp:'' r then drop (length ''dblp:'') r else r)"

definition digits_value :: "string \<Rightarrow> nat" where
  \<comment> \<open>the number a string of decimal digits denotes\<close>
  "digits_value ds = foldl (\<lambda>a c. a * 10 + (of_char c - 48)) 0 ds"

section \<open>Example inputs\<close>

definition ex_runtime :: runtime where
  "ex_runtime =
     \<lparr>py_float = (\<lambda>s. if s = ''0.9'' then Some (Fin (9 / 10))
                       else if s = ''0.5'' then Some (Fin (1 / 2))
                       else if s = ''nan'' then Some NaN else None),
      py_hash = (\<lambda>s. foldl (\<lambda>a c. a * 31 + of_char c) (0::int) s)\<rparr>"

definition ex_inputs :: inputs where
  \<comment> \<open>the end-to-end example: one known triple, a mapping of two names, a batch of two lines\<close>
  "ex_inputs =
     \<lparr>mappings = MappingsJson (JObject [(''id2ent'',
         JObject [(''e1'', JString ''Alice''), (''e2'', JString ''Bob'')])]),
      synthetic_files =
        [(''generated_2.txt'',
            [''head'' @ [TAB] @ ''relation'' @ [TAB] @ ''tail'' @ [TAB] @ ''score'',
             ''e1'' @ [TAB] @ ''r1'' @ [TAB] @ ''e2'' @ [TAB] @ ''0.9'' @ [CHR 0x0A],
             ''e1'' @ [TAB] @ ''r2'' @ [TAB] @ ''e3'' @ [TAB] @ ''0.5'' @ [CHR 0x0A]]),
         (''generated_1.txt'', [''header'', ''not a triple''])],
      real_triples = RealLines [''e1'' @ [TAB] @ ''r1'' @ [TAB] @ ''e2'' @ [CHR 0x0A]],
      training_log = LogMissing,
      now = ''2024-01-01 00:00 UTC''\<rparr>"

definition ex_empty_batch :: inputs where
  \<comment> \<open>a generated file whose only data line is dropped\<close>
  "ex_empty_batch =
     ex_inputs\<lparr>synthetic_files := [(''generated_1.txt'', [''header'', ''not a triple''])]\<rparr>"

definition ex_no_corpus :: inputs where
  \<comment> \<open>the example without the reference file\<close>
  "ex_no_corpus = ex_inputs\<lparr>real_triples := RealMissing\<rparr>"

definition ex_empty_corpus :: inputs where
  \<comment> \<open>the example with a reference file that exists and has no line\<close>
  "ex_empty_corpus = ex_inputs\<lparr>real_triples := RealLines []\<rparr>"

definition ex_odd_relation :: "scored_triple list" where
  \<comment> \<open>a batch of one triple whose relation has the text \<open>dblp:\<close> inside, not in front\<close>
  "ex_odd_relation = [(''e1'', ''mydblp:cites'', ''e2'', Fin (1 / 2))]"

definition ex_array_mapping :: inputs where
  \<comment> \<open>the example with a mapping file that holds the JSON text \<open>[]\<close>\<close>
  "ex_array_mapping = ex_inputs\<lparr>mappings := MappingsJson (JArray [])\<rparr>"

definition ex_no_field :: inputs where
  \<comment> \<open>the example with a mapping file that is an object without the key \<open>id2ent\<close>\<close>
  "ex_no_field = ex_inputs\<lparr>mappings := MappingsJson (JObject [(''ent2id'', JObject [])])\<rparr>"

section \<open>Properties\<close>

lemma and_then_Inr [simp]: "and_then (Inr v) f = f v"
  by (simp add: and_then_def)

lemma and_then_Inl [simp]: "and_then (Inl e) f = Inl e"
  by (simp add: and_then_def)

lemma percent_of_value: "percent_of x n = Inr (percentage x n)"
  by (simp add: percent_of_def percentage_def true_div_def)

lemma round_half_even_of_int [simp]: "round_half_even (of_int k) = k"
  by (simp add: round_half_even_def)

lemma py_round_of_int: "py_round (of_int k) nd = of_int k"
proof -
  have "(of_int k :: rat) * 10 ^ nd = of_int (k * 10 ^ nd)" by simp
  then have "round_half_even (of_int k * 10 ^ nd) = k * 10 ^ nd"
    using round_half_even_of_int by presburger
  then show ?thesis by (simp add: py_round_def)
qed

lemma py_round_zero [simp]: "py_round 0 nd = 0"
  using py_round_of_int [of 0 nd] by simp

lemma py_round_hundred [simp]: "py_round 100 nd = 100"
  using py_round_of_int [of 100 nd] by simp

lemma percentage_zero_total [simp]: "percentage x 0 = 0"
  by (simp add: percentage_def)

lemma percentage_zero_count [simp]: "percentage 0 n = 0"
  by (simp add: percentage_def)

lemma percentage_full: "0 < n \<Longrightarrow> percentage n n = 100"
  by (simp add: percentage_def)

lemma freq_entries_value: "freq_entries n kvs = Inr (map (freq_entry n) kvs)"
  by (induction kvs) (auto simp: percent_of_value freq_entry_def)

lemma relation_freq_of_value:
  "relation_freq_of b = Inr (sort_key rf_relation (map (freq_entry (length b)) (rel_counts b)))"
  by (simp add: relation_freq_of_def freq_entries_value)

lemma avg_distance_of_total: "\<exists>v. avg_distance_of b = Inr v"
  by (simp add: avg_distance_of_def fdiv_nat_def)

lemma avg_distance_of_Nil [simp]: "avg_distance_of [] = Inr (Fin 0)"
  by (simp add: avg_distance_of_def)

lemma build_report_value:
  assumes "decoded_hypotheses rt idn a rs b = Inr hyps" and "py_len idn = Inr kb"
  shows "\<exists>avg. avg_distance_of b = Inr avg \<and> build_report rt idn b (rs, ar, a) lg ts = Inr
    \<lparr>last_updated = ts, status = read_training_status lg,
     stats = \<lparr>novelty = py_round (percentage (novel_count rt a rs b) (length b)) 2,
              train_overlap = py_round (percentage (length b - novel_count rt a rs b) (length b)) 2,
              uniqueness = py_round (percentage (unique_triples b) (length b)) 2,
              relation_diversity =
                py_round (percentage (length (rel_counts b)) (total_relations ar)) 2,
              avg_distance = fround avg 4,
              schema_validity = py_round (percentage (valid_count b) (length b)) 2,
              total_generated = length b,
              total_knowledge_base = kb\<rparr>,
     relation_freq = sort_key rf_relation (map (freq_entry (length b)) (rel_counts b)),
     hypotheses = hyps\<rparr>"
proof -
  obtain avg where "avg_distance_of b = Inr avg"
    using avg_distance_of_total by blast
  with assms show ?thesis
    by (simp add: build_report_def novelty_score_def overlap_score_def uniqueness_score_def
        relation_diversity_of_def schema_validity_of_def percent_of_value relation_freq_of_value)
qed

lemma build_report_not_zero_division:
  "build_report rt idn b ld lg ts \<noteq> Inl ZeroDivisionError"
proof (cases ld)
  case (fields rs ar a)
  have d: "decode rt idn a rs x \<noteq> Inl ZeroDivisionError" for x
    by (cases x; cases idn) (simp_all add: decode_def dict_get_def)
  have "decode_all rt idn a rs xs \<noteq> Inl ZeroDivisionError" for xs
  proof (induction xs)
    case Nil show ?case by simp
  next
    case (Cons x xs)
    with d [of x] show ?case
      by (cases "decode rt idn a rs x"; cases "decode_all rt idn a rs xs") auto
  qed
  then have h: "decoded_hypotheses rt idn a rs b \<noteq> Inl ZeroDivisionError"
    by (simp add: decoded_hypotheses_def)
  have l: "py_len idn \<noteq> Inl ZeroDivisionError"
    by (cases idn) (simp_all add: py_len_def)
  obtain avg where "avg_distance_of b = Inr avg"
    using avg_distance_of_total by blast
  then show ?thesis
    using h l unfolding fields
    by (cases "decoded_hypotheses rt idn a rs b"; cases "py_len idn")
       (simp_all add: build_report_def novelty_score_def overlap_score_def uniqueness_score_def
      relation_diversity_of_def schema_validity_of_def percent_of_value relation_freq_of_value)
qed



lemma main_not_zero_division: "exit (main rt inp) \<noteq> Uncaught ZeroDivisionError"
proof (cases "load_mappings (mappings inp)")
  case (Inl st)
  then show ?thesis
    by (auto simp: main_def load_mappings_def split: sum.splits mappings_file.splits)
next
  case (Inr idn)
  show ?thesis
  proof (cases "synthetic_files inp = []")
    case True
    with Inr show ?thesis by (simp add: main_def)
  next
    case False
    let ?r = "build_report rt idn (read_generated rt (snd (latest_file (synthetic_files inp))))
                (load_real rt (real_triples inp)) (training_log inp) (now inp)"
    have "?r \<noteq> Inl ZeroDivisionError"
      by (rule build_report_not_zero_division)
    with Inr False show ?thesis
      by (cases ?r) (auto simp: main_def)
  qed
qed

text \<open>
  Claim C9. When the mapping file is missing or cannot be parsed, or when no generated file
  exists, the run writes nothing to the output file and does not end in success. In every
  run the output file is written at most once, and it is written exactly when the run ends
  in success.
\<close>

theorem fatal_conditions_write_nothing:
  "(mappings inp = MappingsMissing \<or> mappings inp = MappingsUnparsable \<or> synthetic_files inp = []
      \<longrightarrow> written (main rt inp) = [] \<and> exit (main rt inp) \<noteq> Success)
   \<and> length (written (main rt inp)) \<le> 1
   \<and> (written (main rt inp) \<noteq> [] \<longleftrightarrow> exit (main rt inp) = Success)"
  by (auto simp: main_def load_mappings_def Let_def split: sum.splits mappings_file.splits)

theorem fatal_conditions_write_nothing_witness:
  "mappings (ex_inputs\<lparr>mappings := MappingsMissing\<rparr>) = MappingsMissing
   \<and> written (main ex_runtime (ex_inputs\<lparr>mappings := MappingsMissing\<rparr>)) = []
   \<and> exit (main ex_runtime (ex_inputs\<lparr>mappings := MappingsMissing\<rparr>)) \<noteq> Success"
  using fatal_conditions_write_nothing [of "ex_inputs\<lparr>mappings := MappingsMissing\<rparr>" ex_runtime]
  by simp

lemma Counter_Nil [simp]: "Counter [] = []"
  by (simp add: Counter_def)

lemma build_report_Nil:
  assumes "py_len idn = Inr kb"
  shows "build_report rt idn [] (rs, ar, a) lg ts = Inr
    \<lparr>last_updated = ts, status = read_training_status lg,
     stats = \<lparr>novelty = 0, train_overlap = 0, uniqueness = 0, relation_diversity = 0,
              avg_distance = Fin 0, schema_validity = 0, total_generated = 0,
              total_knowledge_base = kb\<rparr>,
     relation_freq = [], hypotheses = []\<rparr>"
proof -
  have "decoded_hypotheses rt idn a rs [] = Inr []"
    by (simp add: decoded_hypotheses_def)
  from build_report_value [OF this assms, of ar lg ts] show ?thesis
    by (auto simp: rel_counts_def fround_def)
qed

text \<open>
  Claim C1. When the mapping has loaded (and is a value that has a length), a generated file
  exists and its batch parses to no triple, the run ends in success and writes one report
  in which novelty, overlap, uniqueness, relation diversity, average confidence and schema
  validity are all 0; the relation-frequency table has no entry with a percent other than 0
  (it is empty), the sample is empty, and the counts, the timestamp and the training status
  are filled in. No division by zero is raised on the way, since the run ends in success.
\<close>

theorem empty_batch_report:
  assumes "load_mappings (mappings inp) = Inr id_to_name"
      and "py_len id_to_name = Inr kb"
      and "synthetic_files inp \<noteq> []"
      and "read_generated rt (snd (latest_file (synthetic_files inp))) = []"
  shows "\<exists>d. main rt inp = \<lparr>exit = Success, written = [d]\<rparr>
           \<and> novelty (stats d) = 0 \<and> train_overlap (stats d) = 0
           \<and> uniqueness (stats d) = 0 \<and> relation_diversity (stats d) = 0
           \<and> avg_distance (stats d) = Fin 0 \<and> schema_validity (stats d) = 0
           \<and> relation_freq d = [] \<and> (\<forall>e \<in> set (relation_freq d). rf_percent e = 0)
           \<and> total_generated (stats d) = 0 \<and> total_knowledge_base (stats d) = kb
           \<and> hypotheses d = []
           \<and> last_updated d = now inp
           \<and> status d = read_training_status (training_log inp)"
proof -
  obtain rs ar a where ld: "load_real rt (real_triples inp) = (rs, ar, a)"
    by (cases "load_real rt (real_triples inp)") auto
  show ?thesis
    using assms by (simp add: main_def ld build_report_Nil)
qed

lemma ex_empty_batch_reads_nothing:
  "read_generated ex_runtime (snd (latest_file (synthetic_files ex_empty_batch))) = []"
  by (simp add: ex_empty_batch_def ex_inputs_def latest_file_def read_generated_def
      List.map_filter_def parse_line_def strip_def isspace_def TAB_def)

theorem empty_batch_report_witness:
  "load_mappings (mappings ex_empty_batch)
     = Inr (JObject [(''e1'', JString ''Alice''), (''e2'', JString ''Bob'')])
   \<and> synthetic_files ex_empty_batch \<noteq> []
   \<and> read_generated ex_runtime (snd (latest_file (synthetic_files ex_empty_batch))) = []
   \<and> (\<exists>d. main ex_runtime ex_empty_batch = \<lparr>exit = Success, written = [d]\<rparr>
           \<and> novelty (stats d) = 0 \<and> train_overlap (stats d) = 0
           \<and> uniqueness (stats d) = 0 \<and> relation_diversity (stats d) = 0
           \<and> avg_distance (stats d) = Fin 0 \<and> schema_validity (stats d) = 0
           \<and> total_generated (stats d) = 0 \<and> total_knowledge_base (stats d) = 2
           \<and> hypotheses d = [])"
proof -
  have m: "load_mappings (mappings ex_empty_batch)
     = Inr (JObject [(''e1'', JString ''Alice''), (''e2'', JString ''Bob'')])"
    by (simp add: ex_empty_batch_def ex_inputs_def load_mappings_def dict_get_def)
  have l: "py_len (JObject [(''e1'', JString ''Alice''), (''e2'', JString ''Bob'')]) = Inr 2"
    by (simp add: py_len_def)
  have f: "synthetic_files ex_empty_batch \<noteq> []"
    by (simp add: ex_empty_batch_def)
  show ?thesis
    using empty_batch_report [OF m l f ex_empty_batch_reads_nothing] m f
      ex_empty_batch_reads_nothing
    by auto
qed


lemma decode_JObject: "decode rt (JObject m) a rs x = Inr (decoded m rt a rs x)"
  by (cases x) (simp add: decode_def decoded_def dict_get_def)

lemma decode_all_JObject: "decode_all rt (JObject m) a rs xs = Inr (map (decoded m rt a rs) xs)"
  by (induction xs) (simp_all add: decode_JObject)

lemma decoded_hypotheses_JObject:
  "decoded_hypotheses rt (JObject m) a rs b = Inr (map (decoded m rt a rs) (take 200 b))"
  by (simp add: decoded_hypotheses_def decode_all_JObject)

lemma main_value:
  assumes "load_mappings (mappings inp) = Inr (JObject m)"
      and "synthetic_files inp \<noteq> []"
      and "load_real rt (real_triples inp) = (rs, ar, a)"
      and "b = read_generated rt (snd (latest_file (synthetic_files inp)))"
  shows "\<exists>avg. avg_distance_of b = Inr avg \<and> main rt inp = \<lparr>exit = Success, written =
    [\<lparr>last_updated = now inp, status = read_training_status (training_log inp),
     stats = \<lparr>novelty = py_round (percentage (novel_count rt a rs b) (length b)) 2,
              train_overlap = py_round (percentage (length b - novel_count rt a rs b) (length b)) 2,
              uniqueness = py_round (percentage (unique_triples b) (length b)) 2,
              relation_diversity =
                py_round (percentage (length (rel_counts b)) (total_relations ar)) 2,
              avg_distance = fround avg 4,
              schema_validity = py_round (percentage (valid_count b) (length b)) 2,
              total_generated = length b,
              total_knowledge_base = length (remdups (map fst m))\<rparr>,
     relation_freq = sort_key rf_relation (map (freq_entry (length b)) (rel_counts b)),
     hypotheses = map (decoded m rt a rs) (take 200 b)\<rparr>]\<rparr>"
proof -
  have l: "py_len (JObject m) = Inr (length (remdups (map fst m)))"
    by (simp add: py_len_def)
  from build_report_value [where rt = rt and idn = "JObject m" and a = a and rs = rs and b = b
      and ar = ar and lg = "training_log inp" and ts = "now inp",
      OF decoded_hypotheses_JObject l]
  obtain avg where "avg_distance_of b = Inr avg"
    and "build_report rt (JObject m) b (rs, ar, a) (training_log inp) (now inp) = Inr
    \<lparr>last_updated = now inp, status = read_training_status (training_log inp),
     stats = \<lparr>novelty = py_round (percentage (novel_count rt a rs b) (length b)) 2,
              train_overlap = py_round (percentage (length b - novel_count rt a rs b) (length b)) 2,
              uniqueness = py_round (percentage (unique_triples b) (length b)) 2,
              relation_diversity =
                py_round (percentage (length (rel_counts b)) (total_relations ar)) 2,
              avg_distance = fround avg 4,
              schema_validity = py_round (percentage (valid_count b) (length b)) 2,
              total_generated = length b,
              total_knowledge_base = length (remdups (map fst m))\<rparr>,
     relation_freq = sort_key rf_relation (map (freq_entry (length b)) (rel_counts b)),
     hypotheses = map (decoded m rt a rs) (take 200 b)\<rparr>"
    by blast
  with assms show ?thesis
    by (simp add: main_def)
qed

lemma novelty_check_active_iff: "novelty_check_active rt f \<longleftrightarrow> (\<exists>ls. f = RealLines ls)"
  by (cases f) (simp_all add: novelty_check_active_def load_real_def)

lemma load_real_inactive:
  "\<not> novelty_check_active rt f \<Longrightarrow> \<exists>ar. load_real rt f = ({}, ar, False)"
  by (cases f) (simp_all add: novelty_check_active_def load_real_def)

text \<open>
  Claim C2. When the reference file is missing, or its loading ended in \<open>MemoryError\<close>, a
  run on a non-empty batch (mapping loaded as a dict, generated file present) ends in
  success and its report has novelty 100 and overlap 0, and every sampled hypothesis
  carries the novelty flag true.
\<close>

theorem corpus_unavailable_all_novel:
  assumes "load_mappings (mappings inp) = Inr (JObject m)"
      and "synthetic_files inp \<noteq> []"
      and "read_generated rt (snd (latest_file (synthetic_files inp))) \<noteq> []"
      and "real_triples inp = RealMissing \<or> real_triples inp = RealMemoryError ls"
  shows "\<exists>d. main rt inp = \<lparr>exit = Success, written = [d]\<rparr>
           \<and> novelty (stats d) = 100 \<and> train_overlap (stats d) = 0
           \<and> hypotheses d \<noteq> []
           \<and> (\<forall>h \<in> set (hypotheses d). hyp_is_novel h)"
proof -
  let ?b = "read_generated rt (snd (latest_file (synthetic_files inp)))"
  from assms(4) obtain ar where ld: "load_real rt (real_triples inp) = ({}, ar, False)"
    by (auto simp: load_real_def)
  from main_value [OF assms(1,2) ld refl]
  obtain d where d: "main rt inp = \<lparr>exit = Success, written = [d]\<rparr>"
    and n: "novelty (stats d) = py_round (percentage (novel_count rt False {} ?b) (length ?b)) 2"
    and o: "train_overlap (stats d)
              = py_round (percentage (length ?b - novel_count rt False {} ?b) (length ?b)) 2"
    and h: "hypotheses d = map (decoded m rt False {}) (take 200 ?b)"
    by force
  have "novelty (stats d) = 100"
    using n assms(3) by (simp add: novel_count_def percentage_full)
  moreover have "train_overlap (stats d) = 0"
    using o by (simp add: novel_count_def)
  moreover have "hypotheses d \<noteq> []"
    using h assms(3) by simp
  moreover have "\<forall>h \<in> set (hypotheses d). hyp_is_novel h"
    unfolding h by (auto simp: decoded_def)
  ultimately show ?thesis using d by blast
qed

lemma ex_inputs_batch:
  "read_generated ex_runtime (snd (latest_file (synthetic_files ex_inputs)))
     = [(''e1'', ''r1'', ''e2'', Fin (9 / 10)), (''e1'', ''r2'', ''e3'', Fin (1 / 2))]"
  by (simp add: ex_inputs_def ex_runtime_def latest_file_def read_generated_def
      List.map_filter_def parse_line_def strip_def isspace_def TAB_def)

lemma ex_inputs_mappings:
  "load_mappings (mappings ex_inputs)
     = Inr (JObject [(''e1'', JString ''Alice''), (''e2'', JString ''Bob'')])"
  by (simp add: ex_inputs_def load_mappings_def dict_get_def)

theorem corpus_unavailable_all_novel_witness:
  "real_triples ex_no_corpus = RealMissing
   \<and> read_generated ex_runtime (snd (latest_file (synthetic_files ex_no_corpus))) \<noteq> []
   \<and> (\<exists>d. main ex_runtime ex_no_corpus = \<lparr>exit = Success, written = [d]\<rparr>
           \<and> novelty (stats d) = 100 \<and> train_overlap (stats d) = 0
           \<and> hypotheses d \<noteq> []
           \<and> (\<forall>h \<in> set (hypotheses d). hyp_is_novel h))"
proof -
  have m: "load_mappings (mappings ex_no_corpus)
     = Inr (JObject [(''e1'', JString ''Alice''), (''e2'', JString ''Bob'')])"
    using ex_inputs_mappings by (simp add: ex_no_corpus_def)
  have f: "synthetic_files ex_no_corpus \<noteq> []"
    by (simp add: ex_no_corpus_def ex_inputs_def)
  have b: "read_generated ex_runtime (snd (latest_file (synthetic_files ex_no_corpus))) \<noteq> []"
    using ex_inputs_batch by (simp add: ex_no_corpus_def)
  have r: "real_triples ex_no_corpus = RealMissing \<or> real_triples ex_no_corpus = RealMemoryError []"
    by (simp add: ex_no_corpus_def)
  show ?thesis
    using corpus_unavailable_all_novel [OF m f b r] b
    by (simp add: ex_no_corpus_def)
qed

lemma is_novel_empty [simp]: "is_novel rt {} x"
  by (cases x) (simp add: is_novel_def)

lemma novel_count_empty_set: "novel_count rt a {} b = length b"
  by (simp add: novel_count_def)

lemma decode_empty_set: "decode rt idn True {} x = decode rt idn False {} x"
  by (cases x) (simp add: decode_def)

lemma decode_all_empty_set: "decode_all rt idn True {} xs = decode_all rt idn False {} xs"
  by (induction xs) (simp_all add: decode_empty_set)

lemma build_report_empty_set:
  "build_report rt idn b ({}, ar, True) lg ts = build_report rt idn b ({}, ar, False) lg ts"
  by (simp add: build_report_def novelty_score_def overlap_score_def novel_count_empty_set
      decoded_hypotheses_def decode_all_empty_set)

lemma main_empty_corpus:
  "main rt (inp\<lparr>real_triples := RealLines []\<rparr>) = main rt (inp\<lparr>real_triples := RealMissing\<rparr>)"
  by (cases "load_mappings (mappings inp)")
     (simp_all add: main_def load_real_def real_parts_def build_report_empty_set)

lemma build_report_InrD:
  assumes "build_report rt idn b (rs, ar, a) lg ts = Inr d"
  shows "\<exists>hyps kb. decoded_hypotheses rt idn a rs b = Inr hyps \<and> py_len idn = Inr kb"
proof -
  obtain avg where "avg_distance_of b = Inr avg"
    using avg_distance_of_total by blast
  with assms show ?thesis
    by (cases "decoded_hypotheses rt idn a rs b"; cases "py_len idn")
       (simp_all add: build_report_def novelty_score_def overlap_score_def uniqueness_score_def
          relation_diversity_of_def schema_validity_of_def percent_of_value relation_freq_of_value)
qed

lemma decode_inactive_novel: "decode rt idn False rs x = Inr h \<Longrightarrow> hyp_is_novel h"
  by (cases x; cases idn) (auto simp: decode_def dict_get_def)

lemma decode_all_inactive_novel:
  "decode_all rt idn False rs xs = Inr hs \<Longrightarrow> \<forall>h \<in> set hs. hyp_is_novel h"
proof (induction xs arbitrary: hs)
  case Nil
  then show ?case by simp
next
  case (Cons x xs)
  then obtain h hs' where "decode rt idn False rs x = Inr h"
    and "decode_all rt idn False rs xs = Inr hs'" and "hs = h # hs'"
    by (cases "decode rt idn False rs x"; cases "decode_all rt idn False rs xs") auto
  with Cons.IH show ?case
    by (auto dest: decode_inactive_novel)
qed

lemma build_report_inactive:
  assumes "build_report rt idn b (rs, ar, False) lg ts = Inr d"
  shows "(\<forall>h \<in> set (hypotheses d). hyp_is_novel h)
         \<and> total_generated (stats d) = length b
         \<and> (b \<noteq> [] \<longrightarrow> novelty (stats d) = 100)"
proof -
  from build_report_InrD [OF assms] obtain hyps kb
    where h: "decoded_hypotheses rt idn False rs b = Inr hyps" and k: "py_len idn = Inr kb"
    by blast
  from build_report_value [OF h k, of ar lg ts] assms
  have "hypotheses d = hyps" and "total_generated (stats d) = length b"
    and "novelty (stats d) = py_round (percentage (novel_count rt False rs b) (length b)) 2"
    by auto
  moreover have "\<forall>h \<in> set hyps. hyp_is_novel h"
    using h decode_all_inactive_novel by (simp add: decoded_hypotheses_def)
  ultimately show ?thesis
    by (simp add: novel_count_def percentage_full)
qed

lemma main_written_build_report:
  assumes "written (main rt inp) = [d]"
  shows "\<exists>idn. build_report rt idn (read_generated rt (snd (latest_file (synthetic_files inp))))
           (load_real rt (real_triples inp)) (training_log inp) (now inp) = Inr d"
  using assms
  by (auto simp: main_def Let_def split: sum.splits if_splits)

text \<open>
  Claim C3, as the code has it. The report has no field for the mode of the novelty check;
  the mode shows through the values only, and in one direction: a report with a sampled
  hypothesis whose novelty flag is false, or with a novelty other than 100 on a non-empty
  batch, was written by a run whose exact check was active.
\<close>

theorem novelty_mode_shows_only_through_values:
  assumes "written (main rt inp) = [d]"
      and "(\<exists>h \<in> set (hypotheses d). \<not> hyp_is_novel h)
           \<or> (0 < total_generated (stats d) \<and> novelty (stats d) \<noteq> 100)"
  shows "novelty_check_active rt (real_triples inp)"
proof (rule ccontr)
  assume "\<not> novelty_check_active rt (real_triples inp)"
  then obtain ar where ld: "load_real rt (real_triples inp) = ({}, ar, False)"
    using load_real_inactive by blast
  from main_written_build_report [OF assms(1)] obtain idn b
    where "build_report rt idn b ({}, ar, False) (training_log inp) (now inp) = Inr d"
    unfolding ld by blast
  from build_report_inactive [OF this] assms(2) show False
    by auto
qed

lemma ex_inputs_load_real:
  "load_real ex_runtime (real_triples ex_inputs)
     = ({py_hash ex_runtime (key ''e1'' ''r1'' ''e2'')}, {''r1''}, True)"
  by (simp add: ex_inputs_def load_real_def real_parts_def strip_def isspace_def TAB_def key_def)

theorem novelty_mode_shows_only_through_values_witness:
  "\<exists>d. written (main ex_runtime ex_inputs) = [d]
       \<and> (\<exists>h \<in> set (hypotheses d). \<not> hyp_is_novel h)
       \<and> novelty_check_active ex_runtime (real_triples ex_inputs)"
proof -
  have f: "synthetic_files ex_inputs \<noteq> []"
    by (simp add: ex_inputs_def)
  from main_value [OF ex_inputs_mappings f ex_inputs_load_real refl]
  obtain d where d: "written (main ex_runtime ex_inputs) = [d]"
    and h: "hypotheses d = map (decoded [(''e1'', JString ''Alice''), (''e2'', JString ''Bob'')]
              ex_runtime True {py_hash ex_runtime (key ''e1'' ''r1'' ''e2'')})
              (take 200 (read_generated ex_runtime (snd (latest_file (synthetic_files ex_inputs)))))"
    by force
  have n: "\<exists>h \<in> set (hypotheses d). \<not> hyp_is_novel h"
    unfolding h ex_inputs_batch by (simp add: decoded_def is_novel_def)
  from novelty_mode_shows_only_through_values [OF d disjI1 [OF n]] d n
  show ?thesis by blast
qed

text \<open>
  Claim C3 as stated fails: a run with the reference file missing and a run with the
  reference file present and empty write the same report, on a non-empty batch, while the
  exact check was active in one and not in the other. No field of the report tells them
  apart.
\<close>

theorem report_hides_novelty_mode:
  "novelty_check_active ex_runtime (real_triples ex_empty_corpus)
   \<and> \<not> novelty_check_active ex_runtime (real_triples ex_no_corpus)
   \<and> written (main ex_runtime ex_empty_corpus) = written (main ex_runtime ex_no_corpus)
   \<and> length (written (main ex_runtime ex_no_corpus)) = 1
   \<and> read_generated ex_runtime (snd (latest_file (synthetic_files ex_no_corpus))) \<noteq> []"
proof -
  have "main ex_runtime ex_empty_corpus = main ex_runtime ex_no_corpus"
    unfolding ex_empty_corpus_def ex_no_corpus_def by (rule main_empty_corpus)
  moreover have "synthetic_files ex_no_corpus \<noteq> []"
    by (simp add: ex_no_corpus_def ex_inputs_def)
  moreover have "load_mappings (mappings ex_no_corpus)
     = Inr (JObject [(''e1'', JString ''Alice''), (''e2'', JString ''Bob'')])"
    using ex_inputs_mappings by (simp add: ex_no_corpus_def)
  moreover have "load_real ex_runtime (real_triples ex_no_corpus) = ({}, {}, False)"
    by (simp add: ex_no_corpus_def load_real_def)
  ultimately have "length (written (main ex_runtime ex_no_corpus)) = 1"
    and "main ex_runtime ex_empty_corpus = main ex_runtime ex_no_corpus"
    using main_value [of ex_no_corpus _ ex_runtime "{}" "{}" False, OF _ _ _ refl]
    by force+
  moreover have "read_generated ex_runtime (snd (latest_file (synthetic_files ex_no_corpus))) \<noteq> []"
    using ex_inputs_batch by (simp add: ex_no_corpus_def)
  ultimately show ?thesis
    by (simp add: novelty_check_active_iff ex_empty_corpus_def ex_no_corpus_def)
qed

lemma str_split_not_Nil [simp]: "str_split sep s \<noteq> []"
  by (induction s) (auto split: list.splits)

lemma str_split_no_sep: "p \<in> set (str_split sep s) \<Longrightarrow> sep \<notin> set p"
proof (induction s arbitrary: p)
  case Nil
  then show ?case by simp
next
  case (Cons c cs)
  show ?case
  proof (cases "c = sep")
    case True
    with Cons show ?thesis by auto
  next
    case False
    obtain q qs where q: "str_split sep cs = q # qs"
      by (cases "str_split sep cs") auto
    with Cons.prems False have "p = c # q \<or> p \<in> set qs" by auto
    with Cons.IH [of q] Cons.IH [of p] q False show ?thesis by auto
  qed
qed

lemma parse_line_fields:
  assumes "parse_line rt line = Some (h, r, t, sc)"
  shows "TAB \<notin> set h \<and> TAB \<notin> set r \<and> TAB \<notin> set t"
proof -
  let ?parts = "str_split TAB (strip line)"
  from assms have len: "4 \<le> length ?parts"
    and "h = ?parts ! 0" "r = ?parts ! 1" "t = ?parts ! 2"
    by (auto simp: parse_line_def Let_def split: if_splits option.splits)
  then have "h \<in> set ?parts" "r \<in> set ?parts" "t \<in> set ?parts"
    by simp_all
  then show ?thesis
    by (blast dest: str_split_no_sep)
qed

lemma read_generated_fields:
  assumes "(h, r, t, sc) \<in> set (read_generated rt lines)"
  shows "TAB \<notin> set h \<and> TAB \<notin> set r \<and> TAB \<notin> set t"
proof -
  from assms obtain line where "parse_line rt line = Some (h, r, t, sc)"
    by (auto simp: read_generated_def List.map_filter_def)
  then show ?thesis by (rule parse_line_fields)
qed

lemma append_sep_inject:
  assumes "c \<notin> set xs" and "c \<notin> set xs'" and "xs @ c # ys = xs' @ c # ys'"
  shows "xs = xs' \<and> ys = ys'"
  using assms
proof (induction xs arbitrary: xs')
  case Nil
  then show ?case by (cases xs') auto
next
  case (Cons x xs)
  then show ?case by (cases xs') auto
qed

lemma key_inject:
  assumes "TAB \<notin> set h" "TAB \<notin> set h'" "TAB \<notin> set r" "TAB \<notin> set r'"
      and "key h r t = key h' r' t'"
  shows "h = h' \<and> r = r' \<and> t = t'"
proof -
  from assms(5) have e: "h @ TAB # (r @ TAB # t) = h' @ TAB # (r' @ TAB # t')"
    by (simp add: key_def)
  from append_sep_inject [OF assms(1,2) e]
  have "h = h'" and "r @ TAB # t = r' @ TAB # t'" by simp_all
  with append_sep_inject [OF assms(3,4)] show ?thesis by blast
qed

lemma key_inj_on_read_generated:
  "inj_on (\<lambda>(h, r, t). key h r t)
     ((\<lambda>(h, r, t, score). (h, r, t)) ` set (read_generated rt lines))"
proof (rule inj_onI)
  fix x y
  assume x: "x \<in> (\<lambda>(h, r, t, score). (h, r, t)) ` set (read_generated rt lines)"
    and y: "y \<in> (\<lambda>(h, r, t, score). (h, r, t)) ` set (read_generated rt lines)"
    and e: "(case x of (h, r, t) \<Rightarrow> key h r t) = (case y of (h, r, t) \<Rightarrow> key h r t)"
  obtain h r t where xx: "x = (h, r, t)" by (cases x) auto
  obtain h' r' t' where yy: "y = (h', r', t')" by (cases y) auto
  from x xx obtain sc where "(h, r, t, sc) \<in> set (read_generated rt lines)" by auto
  then have a: "TAB \<notin> set h \<and> TAB \<notin> set r" using read_generated_fields by blast
  from y yy obtain sc' where "(h', r', t', sc') \<in> set (read_generated rt lines)" by auto
  then have b: "TAB \<notin> set h' \<and> TAB \<notin> set r'" using read_generated_fields by blast
  from e xx yy have "key h r t = key h' r' t'" by simp
  with a b key_inject show "x = y" unfolding xx yy by blast
qed

lemma keys_as_map:
  "map (\<lambda>(h, r, t, score). key h r t) b
     = map (\<lambda>(h, r, t). key h r t) (map (\<lambda>(h, r, t, score). (h, r, t)) b)"
  by (induction b) auto

lemma unique_triples_read_generated:
  "unique_triples (read_generated rt lines)
     = card ((\<lambda>(h, r, t, score). (h, r, t)) ` set (read_generated rt lines))"
  unfolding unique_triples_def keys_as_map
  by (simp add: image_image [symmetric] card_image key_inj_on_read_generated del: image_image)

lemma unique_triples_le: "unique_triples b \<le> length b"
  unfolding unique_triples_def by (metis card_length length_map)

lemma unique_triples_full_iff:
  "unique_triples (read_generated rt lines) = length (read_generated rt lines)
     \<longleftrightarrow> distinct (map (\<lambda>(h, r, t, score). (h, r, t)) (read_generated rt lines))"
proof -
  let ?b = "read_generated rt lines"
  let ?ts = "map (\<lambda>(h, r, t, score). (h, r, t)) ?b"
  have "unique_triples ?b = card (set ?ts)"
    by (simp add: unique_triples_read_generated)
  moreover have "card (set ?ts) = length ?ts \<longleftrightarrow> distinct ?ts"
    using card_distinct distinct_card by blast
  ultimately show ?thesis by simp
qed

lemma percentage_le_100: "x \<le> n \<Longrightarrow> percentage x n \<le> 100"
  by (simp add: percentage_def field_simps)

lemma percentage_eq_100_iff: "0 < n \<Longrightarrow> percentage x n = 100 \<longleftrightarrow> x = n"
  by (simp add: percentage_def field_simps)

lemma round_half_even_error: "\<bar>of_int (round_half_even x) - x\<bar> \<le> 1 / 2"
proof -
  have "of_int \<lfloor>x\<rfloor> \<le> x" and "x < of_int \<lfloor>x\<rfloor> + 1"
    by linarith+
  then show ?thesis
    by (auto simp: round_half_even_def Let_def abs_le_iff)
qed

lemma py_round_error: "\<bar>py_round x 2 - x\<bar> \<le> 1 / 200"
proof -
  define e where "e = of_int (round_half_even (x * 100)) - x * 100"
  have eb: "\<bar>e\<bar> \<le> 1 / 2"
    unfolding e_def by (rule round_half_even_error)
  have h: "py_round x 2 - x = e / 100"
    by (simp add: py_round_def e_def diff_divide_distrib)
  have "\<bar>py_round x 2 - x\<bar> = \<bar>e\<bar> / 100"
    unfolding h by simp
  with eb show ?thesis by linarith
qed

lemma round_half_even_le:
  assumes "x \<le> of_int k"
  shows "round_half_even x \<le> k"
proof (cases "\<lfloor>x\<rfloor> = k")
  case True
  then have "of_int k \<le> x" by (metis of_int_floor_le)
  with assms have "x = of_int k" by simp
  then show ?thesis by simp
next
  case False
  from assms have "\<lfloor>x\<rfloor> \<le> k" by (simp add: floor_le_iff)
  with False have "\<lfloor>x\<rfloor> + 1 \<le> k" by simp
  moreover have "round_half_even x \<le> \<lfloor>x\<rfloor> + 1"
    by (simp add: round_half_even_def Let_def)
  ultimately show ?thesis by simp
qed

lemma py_round_le_100:
  assumes "x \<le> 100"
  shows "py_round x 2 \<le> 100"
proof -
  from assms have "x * 10 ^ 2 \<le> of_int 10000" by simp
  then have "round_half_even (x * 10 ^ 2) \<le> 10000"
    by (rule round_half_even_le)
  then have "(of_int (round_half_even (x * 10 ^ 2)) :: rat) \<le> 10000"
    by (metis of_int_le_iff of_int_numeral)
  then show ?thesis
    by (simp add: py_round_def)
qed

lemma round_half_even_upper_half:
  assumes "of_int k - 1 / 2 \<le> x" and "x \<le> of_int k" and "even k"
  shows "round_half_even x = k"
proof (cases "x = of_int k")
  case True
  then show ?thesis by simp
next
  case False
  with assms(2) have lt: "x < of_int k" by simp
  have lo: "of_int (k - 1) \<le> x"
    using assms(1) by simp
  have fl: "\<lfloor>x\<rfloor> = k - 1"
    using lo lt by (intro floor_unique) simp_all
  have "odd (k - 1)"
    using assms(3) by simp
  with fl assms(1) show ?thesis
    by (simp add: round_half_even_def Let_def)
qed

lemma py_round_eq_100_iff:
  assumes "x \<le> 100"
  shows "py_round x 2 = 100 \<longleftrightarrow> 19999 / 200 \<le> x"
proof
  assume "py_round x 2 = 100"
  with py_round_error [of x] have "\<bar>100 - x\<bar> \<le> 1 / 200"
    by simp
  then show "19999 / 200 \<le> x"
    by linarith
next
  assume "19999 / 200 \<le> x"
  then have "of_int 10000 - 1 / 2 \<le> x * 10 ^ 2"
    by simp
  moreover have "x * 10 ^ 2 \<le> of_int 10000"
    using assms by simp
  ultimately have "round_half_even (x * 10 ^ 2) = 10000"
    by (rule round_half_even_upper_half) simp
  then show "py_round x 2 = 100"
    by (simp add: py_round_def)
qed

lemma percentage_ge_iff:
  assumes "0 < n"
  shows "19999 / 200 \<le> percentage k n \<longleftrightarrow> 19999 * n \<le> 20000 * k"
proof -
  have "19999 / 200 \<le> percentage k n \<longleftrightarrow> (19999 * of_nat n :: rat) \<le> 20000 * of_nat k"
    using assms by (simp add: percentage_def field_simps)
  also have "\<dots> \<longleftrightarrow> (of_nat (19999 * n) :: rat) \<le> of_nat (20000 * k)"
    by simp
  also have "\<dots> \<longleftrightarrow> 19999 * n \<le> 20000 * k"
    by (rule of_nat_le_iff)
  finally show ?thesis .
qed

lemma reported_uniqueness_100_iff:
  assumes "0 < n" and "k \<le> n"
  shows "py_round (percentage k n) 2 = 100 \<longleftrightarrow> 19999 * n \<le> 20000 * k"
  using py_round_eq_100_iff [OF percentage_le_100 [OF assms(2)]] percentage_ge_iff [OF assms(1)]
  by simp

text \<open>
  The rounding of the report can hide a duplicate: 20000 distinct keys among 20001
  triples give a score below 100 that rounds to 100.
\<close>

lemma rounded_uniqueness_hides_duplicate:
  "percentage 20000 20001 \<noteq> 100 \<and> py_round (percentage 20000 20001) 2 = 100"
proof -
  have "percentage 20000 20001 \<noteq> 100"
    using percentage_eq_100_iff [of 20001 20000] by simp
  moreover have "py_round (percentage 20000 20001) 2 = 100"
    using reported_uniqueness_100_iff [of 20001 20000] by simp
  ultimately show ?thesis ..
qed

lemma main_uniqueness:
  assumes "load_mappings (mappings inp) = Inr (JObject m)"
      and "synthetic_files inp \<noteq> []"
      and "b = read_generated rt (snd (latest_file (synthetic_files inp)))"
  shows "\<exists>d. main rt inp = \<lparr>exit = Success, written = [d]\<rparr>
           \<and> uniqueness (stats d) = py_round (percentage (unique_triples b) (length b)) 2"
proof -
  obtain rs ar a where ld: "load_real rt (real_triples inp) = (rs, ar, a)"
    by (cases "load_real rt (real_triples inp)") auto
  from main_value [OF assms(1,2) ld assms(3)] show ?thesis
    by auto
qed

text \<open>
  Claim C4, as the code has it. Let \<open>u\<close> be the uniqueness score of line 95 for the batch
  \<open>b\<close> read from a generated file; the report shows \<open>u\<close> rounded to 2 places. Both \<open>u\<close>
  and the reported value are at most 100. On a non-empty batch, \<open>u\<close> is 100 exactly when
  the (head, relation, tail) triples of the batch are pairwise distinct; the reported value
  is 100 exactly when the distinct keys are at least 99.995 percent of the batch
  (\<open>19999 * length b \<le> 20000 * unique_triples b\<close>), so it is 100 when the triples are
  pairwise distinct, and it can be 100 with a duplicate in a large batch (20000 distinct
  keys among 20001 triples). On the empty batch both values are 0. The number of keys is the number of
  distinct (head, relation, tail) triples, whatever the scores: two triples that differ in
  the score only count as one key.
\<close>

theorem uniqueness_score_bound:
  assumes "b = read_generated rt lines"
  shows "\<exists>u. uniqueness_score b = Inr u \<and> u \<le> 100 \<and> py_round u 2 \<le> 100
           \<and> (b \<noteq> [] \<longrightarrow> (u = 100 \<longleftrightarrow> distinct (map (\<lambda>(h, r, t, score). (h, r, t)) b)))
           \<and> (b \<noteq> [] \<longrightarrow> (py_round u 2 = 100 \<longleftrightarrow> 19999 * length b \<le> 20000 * unique_triples b))
           \<and> (b \<noteq> [] \<longrightarrow> distinct (map (\<lambda>(h, r, t, score). (h, r, t)) b) \<longrightarrow> py_round u 2 = 100)
           \<and> (b = [] \<longrightarrow> u = 0 \<and> py_round u 2 = 0)
           \<and> unique_triples b = card ((\<lambda>(h, r, t, score). (h, r, t)) ` set b)
           \<and> unique_triples [(h0, r0, t0, s1), (h0, r0, t0, s2)] = 1
           \<and> (\<forall>(inp :: inputs) m. load_mappings (mappings inp) = Inr (JObject m) \<and> synthetic_files inp \<noteq> []
                  \<and> lines = snd (latest_file (synthetic_files inp))
                \<longrightarrow> (\<exists>d. main rt inp = \<lparr>exit = Success, written = [d]\<rparr>
                         \<and> uniqueness (stats d) = py_round u 2))"
proof -
  let ?u = "percentage (unique_triples b) (length b)"
  have c1: "uniqueness_score b = Inr ?u"
    by (simp add: uniqueness_score_def percent_of_value)
  have c2: "?u \<le> 100"
    by (rule percentage_le_100) (rule unique_triples_le)
  have c3: "py_round ?u 2 \<le> 100"
    using c2 by (rule py_round_le_100)
  have c4: "b \<noteq> [] \<longrightarrow> (?u = 100 \<longleftrightarrow> distinct (map (\<lambda>(h, r, t, score). (h, r, t)) b))"
    unfolding assms using unique_triples_full_iff [of rt lines]
    by (simp add: percentage_eq_100_iff)
  have c5: "b \<noteq> [] \<longrightarrow> (py_round ?u 2 = 100 \<longleftrightarrow> 19999 * length b \<le> 20000 * unique_triples b)"
    using reported_uniqueness_100_iff [of "length b" "unique_triples b"] unique_triples_le [of b]
    by simp
  have c6: "b \<noteq> [] \<longrightarrow> distinct (map (\<lambda>(h, r, t, score). (h, r, t)) b) \<longrightarrow> py_round ?u 2 = 100"
    using c4 by auto
  have c7: "b = [] \<longrightarrow> ?u = 0 \<and> py_round ?u 2 = 0"
    by simp
  have c8: "unique_triples b = card ((\<lambda>(h, r, t, score). (h, r, t)) ` set b)"
    unfolding assms by (rule unique_triples_read_generated)
  have c9: "unique_triples [(h0, r0, t0, s1), (h0, r0, t0, s2)] = 1"
    by (simp add: unique_triples_def)
  have c10: "\<forall>(inp :: inputs) m. load_mappings (mappings inp) = Inr (JObject m) \<and> synthetic_files inp \<noteq> []
                  \<and> lines = snd (latest_file (synthetic_files inp))
                \<longrightarrow> (\<exists>d. main rt inp = \<lparr>exit = Success, written = [d]\<rparr>
                         \<and> uniqueness (stats d) = py_round ?u 2)"
  proof (intro allI impI)
    fix inp :: inputs and m
    assume h: "load_mappings (mappings inp) = Inr (JObject m) \<and> synthetic_files inp \<noteq> []
                  \<and> lines = snd (latest_file (synthetic_files inp))"
    then have "b = read_generated rt (snd (latest_file (synthetic_files inp)))"
      using assms by simp
    with h show "\<exists>d. main rt inp = \<lparr>exit = Success, written = [d]\<rparr>
                         \<and> uniqueness (stats d) = py_round ?u 2"
      by (intro main_uniqueness) simp_all
  qed
  from c1 c2 c3 c4 c5 c6 c7 c8 c9 c10 show ?thesis
    by (intro exI [of _ ?u] conjI)
qed

theorem uniqueness_score_bound_witness:
  "read_generated ex_runtime (snd (latest_file (synthetic_files ex_inputs))) \<noteq> []
   \<and> distinct (map (\<lambda>(h, r, t, score). (h, r, t))
        (read_generated ex_runtime (snd (latest_file (synthetic_files ex_inputs)))))
   \<and> uniqueness_score (read_generated ex_runtime (snd (latest_file (synthetic_files ex_inputs))))
       = Inr 100
   \<and> load_mappings (mappings ex_inputs)
       = Inr (JObject [(''e1'', JString ''Alice''), (''e2'', JString ''Bob'')])
   \<and> synthetic_files ex_inputs \<noteq> []
   \<and> (\<exists>d. main ex_runtime ex_inputs = \<lparr>exit = Success, written = [d]\<rparr>
           \<and> uniqueness (stats d) = 100)"
proof -
  let ?lines = "snd (latest_file (synthetic_files ex_inputs))"
  let ?b = "read_generated ex_runtime ?lines"
  let ?m = "[(''e1'', JString ''Alice''), (''e2'', JString ''Bob'')]"
  have ne: "?b \<noteq> []"
    by (simp add: ex_inputs_batch)
  have di: "distinct (map (\<lambda>(h, r, t, score). (h, r, t)) ?b)"
    by (simp add: ex_inputs_batch)
  have f: "synthetic_files ex_inputs \<noteq> []"
    by (simp add: ex_inputs_def)
  from uniqueness_score_bound [OF refl, where rt = ex_runtime and lines = ?lines
      and ?h0.0 = "[]" and ?r0.0 = "[]" and ?t0.0 = "[]" and ?s1.0 = "Fin 0" and ?s2.0 = "Fin 0"]
  obtain u where uu: "uniqueness_score ?b = Inr u \<and> u \<le> 100 \<and> py_round u 2 \<le> 100
           \<and> (?b \<noteq> [] \<longrightarrow> (u = 100 \<longleftrightarrow> distinct (map (\<lambda>(h, r, t, score). (h, r, t)) ?b)))
           \<and> (?b \<noteq> [] \<longrightarrow> (py_round u 2 = 100 \<longleftrightarrow> 19999 * length ?b \<le> 20000 * unique_triples ?b))
           \<and> (?b \<noteq> [] \<longrightarrow> distinct (map (\<lambda>(h, r, t, score). (h, r, t)) ?b) \<longrightarrow> py_round u 2 = 100)
           \<and> (?b = [] \<longrightarrow> u = 0 \<and> py_round u 2 = 0)
           \<and> unique_triples ?b = card ((\<lambda>(h, r, t, score). (h, r, t)) ` set ?b)
           \<and> unique_triples [([], [], [], Fin 0), ([], [], [], Fin 0)] = 1
           \<and> (\<forall>(inp :: inputs) m. load_mappings (mappings inp) = Inr (JObject m) \<and> synthetic_files inp \<noteq> []
                  \<and> ?lines = snd (latest_file (synthetic_files inp))
                \<longrightarrow> (\<exists>d. main ex_runtime inp = \<lparr>exit = Success, written = [d]\<rparr>
                         \<and> uniqueness (stats d) = py_round u 2))" ..
  from uu ne di have u100: "u = 100" by blast
  from uu have s: "uniqueness_score ?b = Inr u" by (rule conjunct1)
  from uu have "\<forall>(inp :: inputs) m. load_mappings (mappings inp) = Inr (JObject m) \<and> synthetic_files inp \<noteq> []
                  \<and> ?lines = snd (latest_file (synthetic_files inp))
                \<longrightarrow> (\<exists>d. main ex_runtime inp = \<lparr>exit = Success, written = [d]\<rparr>
                         \<and> uniqueness (stats d) = py_round u 2)"
    by (elim conjE)
  then have "load_mappings (mappings ex_inputs) = Inr (JObject ?m) \<and> synthetic_files ex_inputs \<noteq> []
                  \<and> ?lines = snd (latest_file (synthetic_files ex_inputs))
                \<longrightarrow> (\<exists>d. main ex_runtime ex_inputs = \<lparr>exit = Success, written = [d]\<rparr>
                         \<and> uniqueness (stats d) = py_round u 2)"
    by (elim allE)
  with ex_inputs_mappings f
  have "\<exists>d. main ex_runtime ex_inputs = \<lparr>exit = Success, written = [d]\<rparr>
           \<and> uniqueness (stats d) = py_round u 2"
    by simp
  then have r: "\<exists>d. main ex_runtime ex_inputs = \<lparr>exit = Success, written = [d]\<rparr>
           \<and> uniqueness (stats d) = 100"
    unfolding u100 by simp
  from s have s100: "uniqueness_score ?b = Inr 100"
    unfolding u100 .
  from ne di s100 ex_inputs_mappings f r show ?thesis
    by (intro conjI)
qed

text \<open>
  Claim C4 as stated fails on the empty batch: its keys are pairwise distinct, and its
  uniqueness score is 0, not 100.
\<close>

theorem uniqueness_of_empty_batch:
  "read_generated ex_runtime (snd (latest_file (synthetic_files ex_empty_batch))) = []
   \<and> distinct (map (\<lambda>(h, r, t, score). (h, r, t))
        (read_generated ex_runtime (snd (latest_file (synthetic_files ex_empty_batch)))))
   \<and> uniqueness_score (read_generated ex_runtime (snd (latest_file (synthetic_files ex_empty_batch))))
       = Inr 0"
  by (simp add: ex_empty_batch_reads_nothing uniqueness_score_def percent_of_value)

lemma str_in_iff_sublist: "str_in p s \<longleftrightarrow> sublist p s"
  by (induction s) (simp_all add: sublist_Cons_right)

lemma isdigit_char_iff:
  "isdigit_char c \<longleftrightarrow> c \<in> set ''0123456789'' \<or> c \<in> {CHR 0xB2, CHR 0xB3, CHR 0xB9}"
proof -
  define n where "n = (of_char c :: nat)"
  have r: "(48 \<le> n \<and> n \<le> 57) \<longleftrightarrow> n = 48 \<or> n = 49 \<or> n = 50 \<or> n = 51 \<or> n = 52
      \<or> n = 53 \<or> n = 54 \<or> n = 55 \<or> n = 56 \<or> n = 57"
    by presburger
  have e: "n = of_char d \<longleftrightarrow> c = d" for d
    unfolding n_def by (rule of_char_eq_iff)
  have "isdigit_char c \<longleftrightarrow> (48 \<le> n \<and> n \<le> 57) \<or> n = 178 \<or> n = 179 \<or> n = 185"
    by (simp add: isdigit_char_def n_def Let_def)
  also have "\<dots> \<longleftrightarrow> n = of_char CHR ''0'' \<or> n = of_char CHR ''1'' \<or> n = of_char CHR ''2''
      \<or> n = of_char CHR ''3'' \<or> n = of_char CHR ''4'' \<or> n = of_char CHR ''5''
      \<or> n = of_char CHR ''6'' \<or> n = of_char CHR ''7'' \<or> n = of_char CHR ''8''
      \<or> n = of_char CHR ''9'' \<or> n = of_char (CHR 0xB2) \<or> n = of_char (CHR 0xB3)
      \<or> n = of_char (CHR 0xB9)"
    unfolding r by simp
  also have "\<dots> \<longleftrightarrow> c \<in> set ''0123456789'' \<or> c \<in> {CHR 0xB2, CHR 0xB3, CHR 0xB9}"
    unfolding e by auto
  finally show ?thesis .
qed

lemma isdigit_iff:
  "isdigit t \<longleftrightarrow> t \<noteq> []
     \<and> (\<forall>c \<in> set t. c \<in> set ''0123456789'' \<or> c \<in> {CHR 0xB2, CHR 0xB3, CHR 0xB9})"
  unfolding isdigit_def list_all_iff using isdigit_char_iff by blast

lemma relation_tail_rules_nonempty:
  "map_of relation_tail_rules r = Some v \<Longrightarrow> v \<noteq> []"
  by (auto simp: relation_tail_rules_def split: if_splits)

lemma is_valid_iff:
  "is_valid (h, r, t, score) =
     (if map_of relation_tail_rules r = Some ''year'' then isdigit t
      else if map_of relation_tail_rules r = Some ''author'' then sublist ''author'' t
      else True)"
proof (cases "map_of relation_tail_rules r")
  case None
  then show ?thesis by (simp add: is_valid_def)
next
  case (Some v)
  with relation_tail_rules_nonempty have "v \<noteq> []" by blast
  with Some show ?thesis
    by (simp add: is_valid_def str_in_iff_sublist)
qed

text \<open>
  Claim C5, as the code has it. A triple whose relation has the rule \<open>year\<close> is valid
  exactly when its tail is not empty and each of its characters is a decimal digit or one
  of the superscript digits U+00B2, U+00B3, U+00B9 (what \<open>str.isdigit\<close> accepts below
  code point 256); a triple whose relation has the rule \<open>author\<close> is valid exactly when
  \<open>author\<close> occurs in its tail; every other triple is valid. The score of line 128 is the
  percentage of valid triples, 0 on the empty batch. The four examples of the
  specification come out as it says.
\<close>

theorem schema_validity_rule:
  "is_valid (h, r, t, score) =
     (if map_of relation_tail_rules r = Some ''year''
      then t \<noteq> [] \<and> (\<forall>c \<in> set t. c \<in> set ''0123456789'' \<or> c \<in> {CHR 0xB2, CHR 0xB3, CHR 0xB9})
      else if map_of relation_tail_rules r = Some ''author'' then sublist ''author'' t
      else True)
   \<and> schema_validity_of b
       = Inr (if b = [] then 0 else of_nat (length (filter is_valid b)) / of_nat (length b) * 100)
   \<and> is_valid (h, ''dblp:publishedInYear'', ''2021'', score)
   \<and> \<not> is_valid (h, ''dblp:publishedInYear'', ''twenty-twenty-one'', score)
   \<and> is_valid (h, ''dblp:hasAuthor'', ''author_42'', score)
   \<and> \<not> is_valid (h, ''dblp:hasAuthor'', ''A. Smith'', score)"
proof -
  have "is_valid (h, r, t, score) =
     (if map_of relation_tail_rules r = Some ''year''
      then t \<noteq> [] \<and> (\<forall>c \<in> set t. c \<in> set ''0123456789'' \<or> c \<in> {CHR 0xB2, CHR 0xB3, CHR 0xB9})
      else if map_of relation_tail_rules r = Some ''author'' then sublist ''author'' t
      else True)"
    unfolding is_valid_iff isdigit_iff ..
  moreover have "schema_validity_of b
       = Inr (if b = [] then 0 else of_nat (length (filter is_valid b)) / of_nat (length b) * 100)"
    by (simp add: schema_validity_of_def percent_of_value percentage_def valid_count_def)
  moreover have "is_valid (h, ''dblp:publishedInYear'', ''2021'', score)"
    by (simp add: is_valid_def relation_tail_rules_def isdigit_def isdigit_char_def)
  moreover have "\<not> is_valid (h, ''dblp:publishedInYear'', ''twenty-twenty-one'', score)"
    by (simp add: is_valid_def relation_tail_rules_def isdigit_def isdigit_char_def)
  moreover have "is_valid (h, ''dblp:hasAuthor'', ''author_42'', score)"
    by (simp add: is_valid_def relation_tail_rules_def)
  moreover have "\<not> is_valid (h, ''dblp:hasAuthor'', ''A. Smith'', score)"
    by (simp add: is_valid_def relation_tail_rules_def)
  ultimately show ?thesis by blast
qed

theorem schema_validity_rule_witness:
  "map_of relation_tail_rules ''dblp:conferenceYear'' = Some ''year''
   \<and> is_valid (''c1'', ''dblp:conferenceYear'', ''1999'', Fin (1 / 2))
   \<and> \<not> is_valid (''c1'', ''dblp:conferenceYear'', [], Fin (1 / 2))
   \<and> schema_validity_of [(''c1'', ''dblp:conferenceYear'', ''1999'', Fin (1 / 2)),
                          (''c1'', ''dblp:conferenceYear'', [], Fin (1 / 2))] = Inr 50"
proof -
  have m: "map_of relation_tail_rules ''dblp:conferenceYear'' = Some ''year''"
    by (simp add: relation_tail_rules_def)
  have a: "is_valid (''c1'', ''dblp:conferenceYear'', ''1999'', Fin (1 / 2))"
    using schema_validity_rule [of "''c1''" "''dblp:conferenceYear''" "''1999''" "Fin (1 / 2)" "[]"] m
    by simp
  have b: "\<not> is_valid (''c1'', ''dblp:conferenceYear'', [], Fin (1 / 2))"
    using schema_validity_rule [of "''c1''" "''dblp:conferenceYear''" "[]" "Fin (1 / 2)" "[]"] m
    by simp
  show ?thesis
    using schema_validity_rule [of "''c1''" "''dblp:conferenceYear''" "''1999''" "Fin (1 / 2)"
        "[(''c1'', ''dblp:conferenceYear'', ''1999'', Fin (1 / 2)),
          (''c1'', ''dblp:conferenceYear'', [], Fin (1 / 2))]"] m a b
    by simp
qed

text \<open>
  Claim C5 as stated fails: the tail made of the one character U+00B2 (superscript two) is
  not composed of decimal digits, and the triple passes the rule \<open>year\<close>.
\<close>

theorem superscript_tail_passes_year_rule:
  "map_of relation_tail_rules ''dblp:publishedInYear'' = Some ''year''
   \<and> \<not> decimal_digits_only [CHR 0xB2]
   \<and> is_valid (''p1'', ''dblp:publishedInYear'', [CHR 0xB2], Fin (1 / 2))"
  by (simp add: relation_tail_rules_def decimal_digits_only_def is_valid_def isdigit_def
      isdigit_char_def)

lemma below_ten: "d < 10 \<Longrightarrow> d = 0 \<or> d = 1 \<or> d = 2 \<or> d = 3 \<or> d = 4 \<or> d = 5
    \<or> d = 6 \<or> d = 7 \<or> d = 8 \<or> d = (9::nat)"
  by presburger

lemma digit_char_value: "d < 10 \<Longrightarrow> (of_char (digit_char d) :: nat) = 48 + d"
  by (drule below_ten) (auto simp: digit_char_def)

lemma digit_char_decimal: "d < 10 \<Longrightarrow> digit_char d \<in> set ''0123456789''"
  by (drule below_ten) (auto simp: digit_char_def)

lemma digits_of_not_Nil: "digits_of n \<noteq> []"
  by (subst digits_of.simps) simp

lemma digits_of_decimal: "decimal_digits_only (digits_of n)"
proof (induction n rule: digits_of.induct)
  case (1 n)
  show ?case
  proof (cases "n < 10")
    case True
    then show ?thesis
      using digit_char_decimal [of n]
      by (subst digits_of.simps) (simp add: decimal_digits_only_def)
  next
    case False
    with 1 have "decimal_digits_only (digits_of (n div 10))" by simp
    moreover have "digit_char (n mod 10) \<in> set ''0123456789''"
      by (rule digit_char_decimal) simp
    ultimately show ?thesis
      using False by (subst digits_of.simps) (simp add: decimal_digits_only_def)
  qed
qed

lemma digits_value_snoc: "digits_value (ds @ [c]) = digits_value ds * 10 + (of_char c - 48)"
  by (simp add: digits_value_def)

lemma digits_value_digits_of: "digits_value (digits_of n) = n"
proof (induction n rule: digits_of.induct)
  case (1 n)
  show ?case
  proof (cases "n < 10")
    case True
    then show ?thesis
      using digit_char_value [of n]
      by (subst digits_of.simps) (simp add: digits_value_def)
  next
    case False
    with 1 have "digits_value (digits_of (n div 10)) = n div 10" by simp
    moreover have "(of_char (digit_char (n mod 10)) :: nat) = 48 + n mod 10"
      by (rule digit_char_value) simp
    ultimately show ?thesis
      using False by (subst digits_of.simps) (simp add: digits_value_snoc)
  qed
qed

lemma round_half_even_nonneg: "0 \<le> x \<Longrightarrow> 0 \<le> round_half_even x"
proof -
  assume "0 \<le> x"
  then have "0 \<le> \<lfloor>x\<rfloor>" by simp
  then show ?thesis
    by (auto simp: round_half_even_def Let_def)
qed

lemma four_digits_value:
  "digits_value [digit_char (n div 1000 mod 10), digit_char (n div 100 mod 10),
                 digit_char (n div 10 mod 10), digit_char (n mod 10)] = n mod 10000"
proof -
  have "(of_char (digit_char (k mod 10)) :: nat) = 48 + k mod 10" for k
    by (rule digit_char_value) simp
  then have "digits_value [digit_char (n div 1000 mod 10), digit_char (n div 100 mod 10),
                 digit_char (n div 10 mod 10), digit_char (n mod 10)]
      = ((n div 1000 mod 10 * 10 + n div 100 mod 10) * 10 + n div 10 mod 10) * 10 + n mod 10"
    by (simp add: digits_value_def)
  also have "\<dots> = n mod 10000"
  proof -
    have a: "n mod 10000 = 10 * (n div 10 mod 1000) + n mod 10"
      using mod_mult2_eq [of n 10 1000] by simp
    have d: "n div 10 div 10 = n div 100"
      using div_mult2_eq [of n 10 10] by simp
    have e: "n div 100 div 10 = n div 1000"
      using div_mult2_eq [of n 100 10] by simp
    have b: "n div 10 mod 1000 = 10 * (n div 100 mod 100) + n div 10 mod 10"
      using mod_mult2_eq [of "n div 10" 10 100] by (simp add: d)
    have c: "n div 100 mod 100 = 10 * (n div 1000 mod 10) + n div 100 mod 10"
      using mod_mult2_eq [of "n div 100" 10 10] by (simp add: e)
    show ?thesis
      by (simp add: a b c)
  qed
  finally show ?thesis .
qed

lemma fmt4f_finite:
  "\<exists>ip fr. fmt4f (Fin q) = (if q < 0 then ''-'' else []) @ ip @ ''.'' @ fr
     \<and> ip \<noteq> [] \<and> decimal_digits_only ip \<and> length fr = 4 \<and> decimal_digits_only fr
     \<and> \<bar>of_nat (digits_value ip) + of_nat (digits_value fr) / 10000 - \<bar>q\<bar>\<bar> \<le> 1 / 20000"
proof -
  define n where "n = nat (round_half_even (\<bar>q\<bar> * 10000))"
  define ip where "ip = digits_of (n div 10000)"
  define fr where "fr = [digit_char (n div 1000 mod 10), digit_char (n div 100 mod 10),
                         digit_char (n div 10 mod 10), digit_char (n mod 10)]"
  have f: "fmt4f (Fin q) = (if q < 0 then ''-'' else []) @ ip @ ''.'' @ fr"
    by (simp add: fmt4f_def n_def ip_def fr_def Let_def)
  have d: "digit_char (k mod 10) \<in> set ''0123456789''" for k
    by (rule digit_char_decimal) simp
  have fd: "decimal_digits_only fr"
    unfolding fr_def decimal_digits_only_def using d by simp
  have "0 \<le> round_half_even (\<bar>q\<bar> * 10000)"
    by (rule round_half_even_nonneg) simp
  then have nn: "(of_nat n :: rat) = of_int (round_half_even (\<bar>q\<bar> * 10000))"
    by (simp add: n_def)
  have "digits_value ip * 10000 + digits_value fr = n"
    unfolding ip_def fr_def digits_value_digits_of four_digits_value by simp
  then have "(of_nat n :: rat) = of_nat (digits_value ip * 10000 + digits_value fr)"
    by simp
  then have v: "(of_nat (digits_value ip) :: rat) + of_nat (digits_value fr) / 10000
      = of_nat n / 10000"
    by (simp add: add_divide_distrib)
  define e where "e = (of_nat n :: rat) - \<bar>q\<bar> * 10000"
  have eb: "\<bar>e\<bar> \<le> 1 / 2"
    unfolding e_def nn by (rule round_half_even_error)
  have h: "(of_nat n :: rat) / 10000 - \<bar>q\<bar> = e / 10000"
    by (simp add: e_def diff_divide_distrib)
  have "\<bar>(of_nat n :: rat) / 10000 - \<bar>q\<bar>\<bar> = \<bar>e\<bar> / 10000"
    unfolding h by simp
  with eb have "\<bar>of_nat (digits_value ip) + of_nat (digits_value fr) / 10000 - \<bar>q\<bar>\<bar> \<le> 1 / 20000"
    unfolding v by linarith
  with f fd show ?thesis
    using digits_of_not_Nil [of "n div 10000"] digits_of_decimal [of "n div 10000"]
    unfolding ip_def fr_def by (intro exI conjI) simp_all
qed

lemma str_replace_Nil [simp]: "old \<noteq> [] \<Longrightarrow> str_replace old new [] = []"
  by (subst str_replace.simps) simp

lemma str_replace_no_occurrence:
  assumes "old \<noteq> []" and "\<not> sublist old s"
  shows "str_replace old new s = s"
  using assms(2)
proof (induction s)
  case Nil
  with assms(1) show ?case by simp
next
  case (Cons c cs)
  then have "\<not> prefix old (c # cs)" and "\<not> sublist old cs"
    by (auto simp: sublist_Cons_right)
  with Cons.IH assms(1) show ?case
    by (subst str_replace.simps) simp
qed

lemma str_replace_prefix:
  assumes "old \<noteq> []"
  shows "str_replace old new (old @ s) = new @ str_replace old new s"
  using assms by (subst str_replace.simps) simp


lemma main_hypotheses:
  assumes "load_mappings (mappings inp) = Inr (JObject m)"
      and "synthetic_files inp \<noteq> []"
      and "b = read_generated rt (snd (latest_file (synthetic_files inp)))"
  shows "\<exists>d. main rt inp = \<lparr>exit = Success, written = [d]\<rparr>
           \<and> total_knowledge_base (stats d) = length (remdups (map fst m))
           \<and> hypotheses d = map (decoded m rt (novelty_check_active rt (real_triples inp))
                                  (fst (load_real rt (real_triples inp)))) (take 200 b)"
proof -
  obtain rs ar a where ld: "load_real rt (real_triples inp) = (rs, ar, a)"
    by (cases "load_real rt (real_triples inp)") auto
  from main_value [OF assms(1,2) ld assms(3)] show ?thesis
    by (auto simp: novelty_check_active_def ld)
qed

lemma main_sample:
  assumes "load_mappings (mappings inp) = Inr (JObject m)"
      and "synthetic_files inp \<noteq> []"
      and "b = read_generated rt (snd (latest_file (synthetic_files inp)))"
  shows "\<exists>d. main rt inp = \<lparr>exit = Success, written = [d]\<rparr>
           \<and> length (hypotheses d) = min 200 (length b)
           \<and> (\<forall>i < length (hypotheses d). case b ! i of (h, r, t, score) \<Rightarrow>
                 hyp_head (hypotheses d ! i) = (case map_of m h of None \<Rightarrow> JString h | Some v \<Rightarrow> v)
               \<and> hyp_tail (hypotheses d ! i) = (case map_of m t of None \<Rightarrow> JString t | Some v \<Rightarrow> v)
               \<and> hyp_relation (hypotheses d ! i) = str_replace ''dblp:'' [] r
               \<and> hyp_score (hypotheses d ! i) = fmt4f score)"
proof -
  from main_hypotheses [OF assms] obtain d
    where d: "main rt inp = \<lparr>exit = Success, written = [d]\<rparr>"
      and h: "hypotheses d = map (decoded m rt (novelty_check_active rt (real_triples inp))
                                  (fst (load_real rt (real_triples inp)))) (take 200 b)"
    by blast
  have "length (hypotheses d) = min 200 (length b)"
    unfolding h by (simp add: min.commute)
  moreover have "\<forall>i < length (hypotheses d). case b ! i of (h, r, t, score) \<Rightarrow>
                 hyp_head (hypotheses d ! i) = (case map_of m h of None \<Rightarrow> JString h | Some v \<Rightarrow> v)
               \<and> hyp_tail (hypotheses d ! i) = (case map_of m t of None \<Rightarrow> JString t | Some v \<Rightarrow> v)
               \<and> hyp_relation (hypotheses d ! i) = str_replace ''dblp:'' [] r
               \<and> hyp_score (hypotheses d ! i) = fmt4f score"
    unfolding h by (auto simp: decoded_def split: prod.splits)
  ultimately show ?thesis
    using d by blast
qed

lemma replace_dblp_absent: "\<not> sublist ''dblp:'' r \<Longrightarrow> str_replace ''dblp:'' [] r = r"
  by (intro str_replace_no_occurrence) simp_all

lemma replace_dblp_prefix:
  "\<not> sublist ''dblp:'' r \<Longrightarrow> str_replace ''dblp:'' [] (''dblp:'' @ r) = r"
  using str_replace_prefix [of "''dblp:''" "[]" r] replace_dblp_absent [of r] by simp

text \<open>
  Claim C6, as the code has it. In a run whose mapping loaded as a dict \<open>m\<close> and that has a
  generated file, the sample has \<open>min 200 (length b)\<close> entries, and entry \<open>i\<close> is made from
  triple \<open>i\<close> of the batch \<open>b\<close>: head and tail are looked up in \<open>m\<close> and stay as they are
  when \<open>m\<close> has no entry for them, the relation label has every occurrence of \<open>dblp:\<close>
  removed, and the score is formatted by \<open>.4f\<close>. A label in which \<open>dblp:\<close> does not occur
  is unchanged, and a label that has \<open>dblp:\<close> in front and nowhere else loses that prefix.
  The format of a finite score is an optional sign, integer digits, a point and four
  decimal digits, and the number written is within \<open>0.00005\<close> of the score.
\<close>

theorem hypothesis_sample:
  assumes "load_mappings (mappings inp) = Inr (JObject m)"
      and "synthetic_files inp \<noteq> []"
      and "b = read_generated rt (snd (latest_file (synthetic_files inp)))"
  shows "(\<exists>d. main rt inp = \<lparr>exit = Success, written = [d]\<rparr>
           \<and> length (hypotheses d) = min 200 (length b)
           \<and> (\<forall>i < length (hypotheses d). case b ! i of (h, r, t, score) \<Rightarrow>
                 hyp_head (hypotheses d ! i) = (case map_of m h of None \<Rightarrow> JString h | Some v \<Rightarrow> v)
               \<and> hyp_tail (hypotheses d ! i) = (case map_of m t of None \<Rightarrow> JString t | Some v \<Rightarrow> v)
               \<and> hyp_relation (hypotheses d ! i) = str_replace ''dblp:'' [] r
               \<and> hyp_score (hypotheses d ! i) = fmt4f score))
       \<and> (\<not> sublist ''dblp:'' l \<longrightarrow> str_replace ''dblp:'' [] l = l
             \<and> str_replace ''dblp:'' [] (''dblp:'' @ l) = l)
       \<and> (\<exists>ip fr. fmt4f (Fin q) = (if q < 0 then ''-'' else []) @ ip @ ''.'' @ fr
           \<and> ip \<noteq> [] \<and> decimal_digits_only ip \<and> length fr = 4 \<and> decimal_digits_only fr
           \<and> \<bar>of_nat (digits_value ip) + of_nat (digits_value fr) / 10000 - \<bar>q\<bar>\<bar> \<le> 1 / 20000)"
proof (intro conjI impI)
  show "\<exists>d. main rt inp = \<lparr>exit = Success, written = [d]\<rparr>
           \<and> length (hypotheses d) = min 200 (length b)
           \<and> (\<forall>i < length (hypotheses d). case b ! i of (h, r, t, score) \<Rightarrow>
                 hyp_head (hypotheses d ! i) = (case map_of m h of None \<Rightarrow> JString h | Some v \<Rightarrow> v)
               \<and> hyp_tail (hypotheses d ! i) = (case map_of m t of None \<Rightarrow> JString t | Some v \<Rightarrow> v)
               \<and> hyp_relation (hypotheses d ! i) = str_replace ''dblp:'' [] r
               \<and> hyp_score (hypotheses d ! i) = fmt4f score)"
    by (rule main_sample [OF assms])
next
  assume "\<not> sublist ''dblp:'' l"
  then show "str_replace ''dblp:'' [] l = l"
    by (rule replace_dblp_absent)
next
  assume "\<not> sublist ''dblp:'' l"
  then show "str_replace ''dblp:'' [] (''dblp:'' @ l) = l"
    by (rule replace_dblp_prefix)
next
  show "\<exists>ip fr. fmt4f (Fin q) = (if q < 0 then ''-'' else []) @ ip @ ''.'' @ fr
           \<and> ip \<noteq> [] \<and> decimal_digits_only ip \<and> length fr = 4 \<and> decimal_digits_only fr
           \<and> \<bar>of_nat (digits_value ip) + of_nat (digits_value fr) / 10000 - \<bar>q\<bar>\<bar> \<le> 1 / 20000"
    by (rule fmt4f_finite)
qed

lemma fmt4f_half: "fmt4f (Fin (1 / 2)) = ''0.5000''"
  by (simp add: fmt4f_def round_half_even_def digits_of.simps digit_char_def)

lemma fmt4f_nine_tenths: "fmt4f (Fin (9 / 10)) = ''0.9000''"
  by (simp add: fmt4f_def round_half_even_def digits_of.simps digit_char_def)

theorem hypothesis_sample_witness:
  "\<exists>d. main ex_runtime ex_inputs = \<lparr>exit = Success, written = [d]\<rparr>
       \<and> length (hypotheses d) = 2
       \<and> hyp_head (hypotheses d ! 0) = JString ''Alice''
       \<and> hyp_tail (hypotheses d ! 0) = JString ''Bob''
       \<and> hyp_relation (hypotheses d ! 0) = ''r1''
       \<and> hyp_score (hypotheses d ! 0) = ''0.9000''
       \<and> hyp_head (hypotheses d ! 1) = JString ''Alice''
       \<and> hyp_tail (hypotheses d ! 1) = JString ''e3''
       \<and> hyp_relation (hypotheses d ! 1) = ''r2''
       \<and> hyp_score (hypotheses d ! 1) = ''0.5000''"
proof -
  have f: "synthetic_files ex_inputs \<noteq> []"
    by (simp add: ex_inputs_def)
  let ?m = "[(''e1'', JString ''Alice''), (''e2'', JString ''Bob'')]"
  let ?b = "[(''e1'', ''r1'', ''e2'', Fin (9 / 10)), (''e1'', ''r2'', ''e3'', Fin (1 / 2))]"
  from hypothesis_sample [OF ex_inputs_mappings f ex_inputs_batch [symmetric], THEN conjunct1]
  obtain d where dd: "main ex_runtime ex_inputs = \<lparr>exit = Success, written = [d]\<rparr>
    \<and> length (hypotheses d) = min 200 (length ?b)
    \<and> (\<forall>i < length (hypotheses d). case ?b ! i of (h, r, t, score) \<Rightarrow>
                 hyp_head (hypotheses d ! i) = (case map_of ?m h of None \<Rightarrow> JString h | Some v \<Rightarrow> v)
               \<and> hyp_tail (hypotheses d ! i) = (case map_of ?m t of None \<Rightarrow> JString t | Some v \<Rightarrow> v)
               \<and> hyp_relation (hypotheses d ! i) = str_replace ''dblp:'' [] r
               \<and> hyp_score (hypotheses d ! i) = fmt4f score)" ..
  note d = dd [THEN conjunct1]
  note l = dd [THEN conjunct2, THEN conjunct1]
  note a = dd [THEN conjunct2, THEN conjunct2]
  from l have l2: "length (hypotheses d) = 2" by simp
  from a [rule_format, of 0] l2
  have h0: "hyp_head (hypotheses d ! 0) = JString ''Alice''"
    "hyp_tail (hypotheses d ! 0) = JString ''Bob''"
    "hyp_relation (hypotheses d ! 0) = ''r1''"
    "hyp_score (hypotheses d ! 0) = ''0.9000''"
    by (simp_all add: fmt4f_nine_tenths str_replace.simps)
  from a [rule_format, of "Suc 0"] l2
  have h1: "hyp_head (hypotheses d ! Suc 0) = JString ''Alice''"
    "hyp_tail (hypotheses d ! Suc 0) = JString ''e3''"
    "hyp_relation (hypotheses d ! Suc 0) = ''r2''"
    "hyp_score (hypotheses d ! Suc 0) = ''0.5000''"
    by (simp_all add: fmt4f_half str_replace.simps)
  show ?thesis
    by (rule exI [of _ d]) (simp add: d l2 h0 h1)
qed

text \<open>
  Claim C6 as stated fails: the label \<open>mydblp:cites\<close> does not begin with the prefix
  \<open>dblp:\<close>, so stripping the prefix leaves it as it is, and the sample shows \<open>mycites\<close>.
\<close>

theorem relation_label_loses_inner_text:
  "strip_known_prefix ''mydblp:cites'' = ''mydblp:cites''
   \<and> decoded_hypotheses ex_runtime (JObject []) False {} ex_odd_relation
       = Inr [\<lparr>hyp_head = JString ''e1'', hyp_relation = ''mycites'', hyp_tail = JString ''e2'',
               hyp_score = ''0.5000'', hyp_is_novel = True\<rparr>]"
  by (simp add: strip_known_prefix_def decoded_hypotheses_def ex_odd_relation_def decode_def
      dict_get_def fmt4f_half str_replace.simps)

lemma counter_add_keys: "fst ` set (counter_add x c) = insert x (fst ` set c)"
  by (induction x c rule: counter_add.induct) force+

lemma counter_add_distinct: "distinct (map fst c) \<Longrightarrow> distinct (map fst (counter_add x c))"
  by (induction c) (auto simp: counter_add_keys)

lemma counter_add_sum: "sum_list (map snd (counter_add x c)) = Suc (sum_list (map snd c))"
  by (induction c) auto

lemma counter_add_lookup:
  "map_of (counter_add x c) y =
     (if y = x then Some (case map_of c x of None \<Rightarrow> 1 | Some n \<Rightarrow> Suc n) else map_of c y)"
  by (induction c) auto

lemma counter_fold_keys:
  "fst ` set (foldl (\<lambda>c x. counter_add x c) c0 xs) = fst ` set c0 \<union> set xs"
  by (induction xs arbitrary: c0) (auto simp: counter_add_keys)

lemma counter_fold_distinct:
  "distinct (map fst c0) \<Longrightarrow> distinct (map fst (foldl (\<lambda>c x. counter_add x c) c0 xs))"
  by (induction xs arbitrary: c0) (auto simp: counter_add_distinct)

lemma counter_fold_sum:
  "sum_list (map snd (foldl (\<lambda>c x. counter_add x c) c0 xs)) = sum_list (map snd c0) + length xs"
  by (induction xs arbitrary: c0) (auto simp: counter_add_sum)

lemma Counter_keys: "fst ` set (Counter xs) = set xs"
  by (simp add: Counter_def counter_fold_keys)

lemma Counter_distinct: "distinct (map fst (Counter xs))"
  by (simp add: Counter_def counter_fold_distinct)

lemma Counter_sum: "sum_list (map snd (Counter xs)) = length xs"
  by (simp add: Counter_def counter_fold_sum)

lemma Counter_length: "length (Counter xs) = card (set xs)"
proof -
  have "card (set xs) = card (set (map fst (Counter xs)))"
    by (simp add: Counter_keys)
  also have "\<dots> = length (map fst (Counter xs))"
    by (rule distinct_card) (rule Counter_distinct)
  finally show ?thesis by simp
qed

lemma total_relations_pos: "finite ar \<Longrightarrow> 0 < total_relations ar"
  by (auto simp: total_relations_def card_gt_0_iff)

lemma load_real_relations:
  "load_real rt f = (rs, ar, a) \<Longrightarrow> ar = set (map (\<lambda>p. p ! 1) (real_parts (lines_read f)))"
  by (cases f) (auto simp: load_real_def lines_read_def real_parts_def)

text \<open>
  Claim C8, as the code has it. Relation diversity (line 100, before the rounding of the
  report) is the number of distinct relations of the batch divided by the vocabulary size,
  times 100. The vocabulary size is the number of distinct relations read from the
  reference file when at least one was read, and 15 when none was read: the file is
  missing, or no line read from it has exactly three fields. The relations read before a
  \<open>MemoryError\<close> count as read.
\<close>

theorem relation_diversity_value:
  assumes "load_real rt f = (rs, all_relations, a)"
  shows "relation_diversity_of b all_relations
           = Inr (of_nat (card (set (map (\<lambda>(h, r, t, score). r) b)))
                    / of_nat (total_relations all_relations) * 100)
       \<and> all_relations = set (map (\<lambda>p. p ! 1) (real_parts (lines_read f)))
       \<and> total_relations all_relations
           = (if real_parts (lines_read f) = [] then 15 else card all_relations)
       \<and> (f = RealMissing \<longrightarrow> total_relations all_relations = 15)"
proof -
  have ar: "all_relations = set (map (\<lambda>p. p ! 1) (real_parts (lines_read f)))"
    using assms by (rule load_real_relations)
  have "relation_diversity_of b all_relations
           = Inr (of_nat (card (set (map (\<lambda>(h, r, t, score). r) b)))
                    / of_nat (total_relations all_relations) * 100)"
    using total_relations_pos [of all_relations] ar
    by (simp add: relation_diversity_of_def percent_of_value percentage_def rel_counts_def
        Counter_length)
  moreover have "total_relations all_relations
           = (if real_parts (lines_read f) = [] then 15 else card all_relations)"
    unfolding ar by (simp add: total_relations_def)
  moreover have "f = RealMissing \<longrightarrow> total_relations all_relations = 15"
    unfolding ar by (simp add: total_relations_def lines_read_def real_parts_def)
  ultimately show ?thesis using ar by blast
qed

theorem relation_diversity_value_witness:
  "load_real ex_runtime (real_triples ex_inputs)
     = ({py_hash ex_runtime (key ''e1'' ''r1'' ''e2'')}, {''r1''}, True)
   \<and> total_relations {''r1''} = 1
   \<and> relation_diversity_of
        (read_generated ex_runtime (snd (latest_file (synthetic_files ex_inputs)))) {''r1''}
       = Inr 200"
proof -
  have t: "total_relations {''r1''} = 1"
    by (simp add: total_relations_def)
  have "relation_diversity_of
        (read_generated ex_runtime (snd (latest_file (synthetic_files ex_inputs)))) {''r1''}
       = Inr 200"
    using relation_diversity_value [OF ex_inputs_load_real,
        of "read_generated ex_runtime (snd (latest_file (synthetic_files ex_inputs)))",
        THEN conjunct1]
    unfolding ex_inputs_batch t by simp
  with t ex_inputs_load_real show ?thesis
    by (intro conjI)
qed

text \<open>
  Claim C8 as stated fails: with a reference file that exists and has no line, the
  reference corpus is available (the exact check is active) and the vocabulary size is
  the default 15.
\<close>

theorem default_vocabulary_with_corpus_available:
  "novelty_check_active ex_runtime (real_triples ex_empty_corpus)
   \<and> load_real ex_runtime (real_triples ex_empty_corpus) = ({}, {}, True)
   \<and> total_relations (fst (snd (load_real ex_runtime (real_triples ex_empty_corpus)))) = 15"
  by (simp add: novelty_check_active_def ex_empty_corpus_def load_real_def real_parts_def
      total_relations_def)

text \<open>
  Claim C10, as the code has it. When the mapping file parses as a JSON object that has no
  key \<open>id2ent\<close>, and a generated file exists, the run ends in success with an empty
  mapping: the reported mapping size is 0 and every head and tail of the sample is the raw
  identifier.
\<close>

theorem mapping_object_without_field:
  assumes "mappings inp = MappingsJson (JObject kvs)"
      and "map_of kvs ''id2ent'' = None"
      and "synthetic_files inp \<noteq> []"
      and "b = read_generated rt (snd (latest_file (synthetic_files inp)))"
  shows "\<exists>d. main rt inp = \<lparr>exit = Success, written = [d]\<rparr>
           \<and> total_knowledge_base (stats d) = 0
           \<and> length (hypotheses d) = min 200 (length b)
           \<and> (\<forall>i < length (hypotheses d). case b ! i of (h, r, t, score) \<Rightarrow>
                 hyp_head (hypotheses d ! i) = JString h
               \<and> hyp_tail (hypotheses d ! i) = JString t)"
proof -
  have m: "load_mappings (mappings inp) = Inr (JObject [])"
    using assms(1,2) by (simp add: load_mappings_def dict_get_def)
  from main_hypotheses [OF m assms(3,4)] obtain d
    where d: "main rt inp = \<lparr>exit = Success, written = [d]\<rparr>"
      and k: "total_knowledge_base (stats d) = length (remdups (map fst ([] :: (string \<times> json) list)))"
      and h: "hypotheses d = map (decoded [] rt (novelty_check_active rt (real_triples inp))
                                  (fst (load_real rt (real_triples inp)))) (take 200 b)"
    by (elim exE conjE)
  have "length (hypotheses d) = min 200 (length b)"
    unfolding h by (simp add: min.commute)
  moreover have "\<forall>i < length (hypotheses d). case b ! i of (h, r, t, score) \<Rightarrow>
                 hyp_head (hypotheses d ! i) = JString h
               \<and> hyp_tail (hypotheses d ! i) = JString t"
    unfolding h by (auto simp: decoded_def split: prod.splits)
  ultimately show ?thesis
    using d k by (intro exI [of _ d]) simp
qed

theorem mapping_object_without_field_witness:
  "mappings ex_no_field = MappingsJson (JObject [(''ent2id'', JObject [])])
   \<and> map_of [(''ent2id'', JObject [])] ''id2ent'' = None
   \<and> (\<exists>d. main ex_runtime ex_no_field = \<lparr>exit = Success, written = [d]\<rparr>
           \<and> total_knowledge_base (stats d) = 0
           \<and> length (hypotheses d) = 2
           \<and> hyp_head (hypotheses d ! 0) = JString ''e1''
           \<and> hyp_tail (hypotheses d ! 0) = JString ''e2'')"
proof -
  have m: "mappings ex_no_field = MappingsJson (JObject [(''ent2id'', JObject [])])"
    by (simp add: ex_no_field_def)
  have n: "map_of [(''ent2id'', JObject [])] ''id2ent'' = None"
    by simp
  have f: "synthetic_files ex_no_field \<noteq> []"
    by (simp add: ex_no_field_def ex_inputs_def)
  have b: "[(''e1'', ''r1'', ''e2'', Fin (9 / 10)), (''e1'', ''r2'', ''e3'', Fin (1 / 2))]
      = read_generated ex_runtime (snd (latest_file (synthetic_files ex_no_field)))"
    using ex_inputs_batch by (simp add: ex_no_field_def)
  from mapping_object_without_field [OF m n f b]
  obtain d where dd: "main ex_runtime ex_no_field = \<lparr>exit = Success, written = [d]\<rparr>
           \<and> total_knowledge_base (stats d) = 0
           \<and> length (hypotheses d)
               = min 200 (length [(''e1'', ''r1'', ''e2'', Fin (9 / 10)), (''e1'', ''r2'', ''e3'', Fin (1 / 2))])
           \<and> (\<forall>i < length (hypotheses d).
                 case [(''e1'', ''r1'', ''e2'', Fin (9 / 10)), (''e1'', ''r2'', ''e3'', Fin (1 / 2))] ! i
                 of (h, r, t, score) \<Rightarrow>
                 hyp_head (hypotheses d ! i) = JString h
               \<and> hyp_tail (hypotheses d ! i) = JString t)" ..
  from dd have l2: "length (hypotheses d) = 2" by simp
  from dd [THEN conjunct2, THEN conjunct2, THEN conjunct2, rule_format, of 0] l2
  have "hyp_head (hypotheses d ! 0) = JString ''e1''" "hyp_tail (hypotheses d ! 0) = JString ''e2''"
    by simp_all
  with dd l2 m n show ?thesis
    by (intro conjI exI [of _ d]) simp_all
qed

text \<open>
  Claim C10 as stated fails: a mapping file holding \<open>[]\<close> parses as valid JSON and has no
  field \<open>id2ent\<close>, and the run aborts without a report (the \<open>AttributeError\<close> of \<open>data.get\<close>
  is caught at line 33).
\<close>

theorem mapping_array_aborts:
  "mappings ex_array_mapping = MappingsJson (JArray [])
   \<and> synthetic_files ex_array_mapping \<noteq> []
   \<and> main ex_runtime ex_array_mapping = \<lparr>exit = MappingsLoadFailed, written = []\<rparr>"
  by (simp add: ex_array_mapping_def ex_inputs_def main_def load_mappings_def dict_get_def)

lemma counter_fold_lookup:
  "map_of (foldl (\<lambda>c x. counter_add x c) c0 xs) y =
     (case map_of c0 y of
        None \<Rightarrow> if y \<in> set xs then Some (count_list xs y) else None
      | Some n \<Rightarrow> Some (n + count_list xs y))"
proof (induction xs arbitrary: c0)
  case Nil
  show ?case by (simp split: option.splits)
next
  case (Cons x xs)
  show ?case
    by (simp add: Cons.IH counter_add_lookup split: option.splits)
qed

lemma Counter_lookup:
  "map_of (Counter xs) y = (if y \<in> set xs then Some (count_list xs y) else None)"
  by (simp add: Counter_def counter_fold_lookup)

lemma Counter_entry: "(y, n) \<in> set (Counter xs) \<Longrightarrow> n = count_list xs y"
proof -
  assume "(y, n) \<in> set (Counter xs)"
  then have "map_of (Counter xs) y = Some n"
    using Counter_distinct [of xs] by simp
  then show ?thesis
    by (simp add: Counter_lookup split: if_splits)
qed

lemma insort_key_map_distinct:
  "distinct (map f (insort_key f x xs)) \<longleftrightarrow> f x \<notin> f ` set xs \<and> distinct (map f xs)"
  by (induction xs) (auto simp: set_insort_key)

lemma sort_key_map_distinct: "distinct (map f (sort_key f xs)) \<longleftrightarrow> distinct (map f xs)"
  by (induction xs) (simp_all add: insort_key_map_distinct)

lemma insort_key_sum: "sum_list (map g (insort_key f x xs)) = g x + sum_list (map g xs)"
  for g :: "'a \<Rightarrow> rat"
  by (induction xs) simp_all

lemma sort_key_sum: "sum_list (map g (sort_key f xs)) = sum_list (map g xs)"
  for g :: "'a \<Rightarrow> rat"
  by (induction xs) (simp_all add: insort_key_sum)

lemma sum_list_error:
  fixes f g :: "'a \<Rightarrow> rat"
  assumes "\<And>x. x \<in> set xs \<Longrightarrow> \<bar>f x - g x\<bar> \<le> c"
  shows "\<bar>sum_list (map f xs) - sum_list (map g xs)\<bar> \<le> of_nat (length xs) * c"
  using assms
proof (induction xs)
  case Nil
  show ?case by simp
next
  case (Cons x xs)
  have "\<bar>f x - g x\<bar> \<le> c" by (rule Cons.prems) simp
  moreover have "\<bar>sum_list (map f xs) - sum_list (map g xs)\<bar> \<le> of_nat (length xs) * c"
    by (rule Cons.IH) (simp add: Cons.prems)
  ultimately show ?case
    by (simp add: algebra_simps abs_le_iff)
qed

lemma percentage_sum:
  "sum_list (map (\<lambda>kv. percentage (snd kv) n) kvs) = percentage (sum_list (map snd kvs)) n"
  by (induction kvs) (simp_all add: percentage_def add_divide_distrib distrib_right)

lemma freq_entries_percent_sum:
  assumes "0 < n" and "sum_list (map snd kvs) = n"
  shows "\<bar>sum_list (map rf_percent (map (freq_entry n) kvs)) - 100\<bar> \<le> of_nat (length kvs) / 200"
proof -
  have a: "\<bar>sum_list (map (\<lambda>kv. py_round (percentage (snd kv) n) 2) kvs)
          - sum_list (map (\<lambda>kv. percentage (snd kv) n) kvs)\<bar> \<le> of_nat (length kvs) * (1 / 200)"
    by (rule sum_list_error) (rule py_round_error)
  have b: "sum_list (map (\<lambda>kv. percentage (snd kv) n) kvs) = 100"
    using assms by (simp add: percentage_sum percentage_full)
  have c: "map rf_percent (map (freq_entry n) kvs)
      = map (\<lambda>kv. py_round (percentage (snd kv) n) 2) kvs"
    by (simp add: freq_entry_def)
  from a show ?thesis
    unfolding b c by simp
qed

text \<open>
  Claim C7. For a non-empty batch the relation-frequency table of lines 102 to 106 has
  exactly the relations of the batch as its relation identifiers, in strictly ascending
  order (strings compare lexicographically by code point), so each relation has one entry;
  the entry of a relation holds the number of triples with that relation and its
  percentage of the batch, rounded to 2 places; and the percentages sum to 100 up to
  \<open>0.005\<close> per entry.
\<close>

theorem relation_freq_table:
  assumes "b \<noteq> []"
  shows "\<exists>rf. relation_freq_of b = Inr rf
           \<and> set (map rf_relation rf) = set (map (\<lambda>(h, r, t, score). r) b)
           \<and> sorted_wrt (<) (map rf_relation rf)
           \<and> (\<forall>e \<in> set rf.
                 rf_count e = count_list (map (\<lambda>(h, r, t, score). r) b) (rf_relation e)
               \<and> rf_percent e = py_round (of_nat (rf_count e) / of_nat (length b) * 100) 2)
           \<and> \<bar>sum_list (map rf_percent rf) - 100\<bar> \<le> of_nat (length rf) / 200"
proof -
  let ?rels = "map (\<lambda>(h, r, t, score). r) b"
  let ?c = "Counter ?rels"
  let ?n = "length b"
  let ?rf = "sort_key rf_relation (map (freq_entry ?n) ?c)"
  have n: "0 < ?n" using assms by simp
  have rel: "map rf_relation (map (freq_entry ?n) ?c) = map fst ?c"
    by (simp add: freq_entry_def)
  have v: "relation_freq_of b = Inr ?rf"
    by (simp add: relation_freq_of_value rel_counts_def)
  have s: "set (map rf_relation ?rf) = set ?rels"
    using Counter_keys [of ?rels] by (simp add: freq_entry_def image_image)
  have "distinct (map rf_relation ?rf)"
    unfolding sort_key_map_distinct rel by (rule Counter_distinct)
  moreover have "sorted (map rf_relation ?rf)"
    by (rule sorted_sort_key)
  ultimately have o: "sorted_wrt (<) (map rf_relation ?rf)"
    by (simp add: strict_sorted_iff)
  have e: "\<forall>e \<in> set ?rf. rf_count e = count_list ?rels (rf_relation e)
               \<and> rf_percent e = py_round (of_nat (rf_count e) / of_nat ?n * 100) 2"
  proof
    fix e
    assume "e \<in> set ?rf"
    then obtain kv where kv: "kv \<in> set ?c" and ee: "e = freq_entry ?n kv"
      by auto
    from kv have "snd kv = count_list ?rels (fst kv)"
      using Counter_entry [of "fst kv" "snd kv" ?rels] by simp
    with ee n show "rf_count e = count_list ?rels (rf_relation e)
               \<and> rf_percent e = py_round (of_nat (rf_count e) / of_nat ?n * 100) 2"
      by (simp add: freq_entry_def percentage_def)
  qed
  have "\<bar>sum_list (map rf_percent (map (freq_entry ?n) ?c)) - 100\<bar> \<le> of_nat (length ?c) / 200"
    using n by (intro freq_entries_percent_sum) (simp_all add: Counter_sum)
  then have p: "\<bar>sum_list (map rf_percent ?rf) - 100\<bar> \<le> of_nat (length ?rf) / 200"
    by (simp add: sort_key_sum)
  from v s o e p show ?thesis by blast
qed

theorem relation_freq_table_witness:
  "read_generated ex_runtime (snd (latest_file (synthetic_files ex_inputs))) \<noteq> []
   \<and> (\<exists>rf. relation_freq_of (read_generated ex_runtime (snd (latest_file (synthetic_files ex_inputs))))
             = Inr rf
           \<and> set (map rf_relation rf) = {''r1'', ''r2''}
           \<and> sorted_wrt (<) (map rf_relation rf)
           \<and> \<bar>sum_list (map rf_percent rf) - 100\<bar> \<le> of_nat (length rf) / 200)"
proof -
  have ne: "read_generated ex_runtime (snd (latest_file (synthetic_files ex_inputs))) \<noteq> []"
    by (simp add: ex_inputs_batch)
  from relation_freq_table [OF ne] ne show ?thesis
    unfolding ex_inputs_batch by auto
qed

text \<open>
  The end-to-end example of the specification: one of the two generated triples is known,
  so novelty and overlap are 50, uniqueness is 100, and both hypotheses have the head
  \<open>Alice\<close>.
\<close>

lemma py_round_numeral: "py_round (numeral k) nd = numeral k"
  using py_round_of_int [of "numeral k" nd] by simp

lemma end_to_end_example:
  "\<exists>d. main ex_runtime ex_inputs = \<lparr>exit = Success, written = [d]\<rparr>
       \<and> novelty (stats d) = 50 \<and> train_overlap (stats d) = 50 \<and> uniqueness (stats d) = 100
       \<and> total_generated (stats d) = 2 \<and> total_knowledge_base (stats d) = 2
       \<and> map hyp_head (hypotheses d) = [JString ''Alice'', JString ''Alice'']
       \<and> map hyp_is_novel (hypotheses d) = [False, True]"
proof -
  have f: "synthetic_files ex_inputs \<noteq> []"
    by (simp add: ex_inputs_def)
  have k: "py_hash ex_runtime (key ''e1'' ''r2'' ''e3'') \<noteq> py_hash ex_runtime (key ''e1'' ''r1'' ''e2'')"
    by (simp add: ex_runtime_def key_def TAB_def)
  have n: "novel_count ex_runtime True {py_hash ex_runtime (key ''e1'' ''r1'' ''e2'')}
      [(''e1'', ''r1'', ''e2'', Fin (9 / 10)), (''e1'', ''r2'', ''e3'', Fin (1 / 2))] = 1"
    using k by (simp add: novel_count_def is_novel_def)
  have u: "unique_triples [(''e1'', ''r1'', ''e2'', Fin (9 / 10)), (''e1'', ''r2'', ''e3'', Fin (1 / 2))] = 2"
    by (simp add: unique_triples_def key_def)
  from main_value [OF ex_inputs_mappings f ex_inputs_load_real ex_inputs_batch [symmetric]]
  show ?thesis
    using k by (auto simp: n u percentage_def py_round_numeral decoded_def is_novel_def)
qed
end
